theory Spec2Isabelle
  imports Main
begin

section \<open>Access-file generation of sam-workflows\<close>

text \<open>
  A shallow embedding of \<^verbatim>\<open>src/sam_workflows/subcommands/accessfiles.py\<close>.
  The module is glue code around Pillow, PyMuPDF (fitz), pathlib, json, the file system
  and the repository's helpers and settings, none of which is part of the module. Every
  such collaborator is a field of the record \<open>lib\<close> (functions) or \<open>settings\<close>
  (constants), so each theorem holds for whatever values these fields have. Python's
  built-in \<^verbatim>\<open>str.split\<close>, \<^verbatim>\<open>int\<close>, \<^verbatim>\<open>dict.get\<close>
  and list indexing are written out.
\<close>

subsection \<open>Exceptions and values\<close>

text \<open>
  The exceptions that the module raises or lets through. \<open>PDFConvertError e\<close> is
  \<^verbatim>\<open>PDFConvertError(e)\<close>: the wrapped exception is its argument.
  \<open>ImageConvertError\<close> is declared by the module and never raised.
\<close>

datatype exn =
    KeyError string
  | JSONDecodeError
  | AttributeError
  | ValueError
  | TypeError
  | IndexError
  | UnidentifiedImageError
  | OSError
  | RuntimeError
  | PDFConvertError exn
  | ImageConvertError

text \<open>What \<^verbatim>\<open>json.loads\<close> returns (floats are left out: no code path reads one).\<close>

datatype json =
    JNull
  | JBool bool
  | JNumber int
  | JString string
  | JArray "json list"
  | JObject "(string \<times> json) list"

type_synonym path = string

text \<open>A row of the csv export, as \<^verbatim>\<open>csv.DictReader\<close> gives it.\<close>

type_synonym row = "string \<rightharpoonup> string"

subsection \<open>Python built-ins\<close>

text \<open>
  \<^verbatim>\<open>data.get(key, default)\<close>: only a dict has \<^verbatim>\<open>get\<close>; any other decoded
  value raises AttributeError.
\<close>

fun dict_get :: "json \<Rightarrow> string \<Rightarrow> json \<Rightarrow> exn + json" where
  "dict_get (JObject kvs) key dflt =
     Inr (case map_of kvs key of None \<Rightarrow> dflt | Some v \<Rightarrow> v)"
| "dict_get _ key dflt = Inl AttributeError"

text \<open>\<^verbatim>\<open>data[key]\<close> on a dict; only reached after \<open>dict_get\<close> has succeeded.\<close>

fun dict_getitem :: "json \<Rightarrow> string \<Rightarrow> exn + json" where
  "dict_getitem (JObject kvs) key =
     (case map_of kvs key of None \<Rightarrow> Inl (KeyError key) | Some v \<Rightarrow> Inr v)"
| "dict_getitem _ key = Inl TypeError"

text \<open>
  \<^verbatim>\<open>int(s)\<close> for a string of ASCII characters, as CPython parses it: the
  whitespace it strips on both sides is tab, line feed, vertical tab, form feed, carriage
  return and space (9 to 13 and 32), one sign is allowed, then decimal digits, single
  underscores allowed between digits. \<open>None\<close> is ValueError. From Python 3.11 on a
  string of more than \<^verbatim>\<open>sys.get_int_max_str_digits()\<close> digits is a ValueError as
  well; the limit is a parameter, 0 for no limit, and it is looked at only for more than
  640 digits, below which it cannot be set.
\<close>

definition is_ascii :: "string \<Rightarrow> bool" where
  "is_ascii s = list_all (\<lambda>c. (of_char c :: nat) < 128) s"

definition py_isspace :: "char \<Rightarrow> bool" where
  "py_isspace c = (let n = (of_char c :: nat) in (9 \<le> n \<and> n \<le> 13) \<or> n = 32)"

definition py_strip :: "string \<Rightarrow> string" where
  "py_strip s = rev (dropWhile py_isspace (rev (dropWhile py_isspace s)))"

definition digit_val :: "char \<Rightarrow> nat option" where
  "digit_val c =
     (let n = (of_char c :: nat) in if 48 \<le> n \<and> n \<le> 57 then Some (n - 48) else None)"

fun py_digits :: "nat \<Rightarrow> string \<Rightarrow> nat option" where
  "py_digits acc [] = Some acc"
| "py_digits acc [c] =
     (case digit_val c of None \<Rightarrow> None | Some v \<Rightarrow> Some (10 * acc + v))"
| "py_digits acc (c # d # cs) =
     (if c = CHR ''_'' then
        (case digit_val d of None \<Rightarrow> None | Some v \<Rightarrow> py_digits (10 * acc + v) cs)
      else
        (case digit_val c of None \<Rightarrow> None | Some v \<Rightarrow> py_digits (10 * acc + v) (d # cs)))"

definition py_unsigned :: "string \<Rightarrow> nat option" where
  "py_unsigned s =
     (case s of [] \<Rightarrow> None
      | c # cs \<Rightarrow> (case digit_val c of None \<Rightarrow> None | Some v \<Rightarrow> py_digits v cs))"

definition too_many_digits :: "nat \<Rightarrow> string \<Rightarrow> bool" where
  "too_many_digits limit s =
     (let digits = length (filter (\<lambda>c. digit_val c \<noteq> None) s)
      in digits > 640 \<and> limit > 0 \<and> digits > limit)"

definition py_int :: "nat \<Rightarrow> string \<Rightarrow> int option" where
  "py_int limit s =
     (case py_strip s of [] \<Rightarrow> None
      | c # cs \<Rightarrow>
          (let body = (if c = CHR ''-'' \<or> c = CHR ''+'' then cs else c # cs) in
           case py_unsigned body of
             None \<Rightarrow> None
           | Some n \<Rightarrow>
               if too_many_digits limit body then None
               else Some (if c = CHR ''-'' then - int n else int n)))"

text \<open>
  \<^verbatim>\<open>hasattr(v, "split")\<close> for a value that \<^verbatim>\<open>json.loads\<close> gives: only a string
  has the method.
\<close>

fun has_split :: "json \<Rightarrow> bool" where
  "has_split (JString s) = True"
| "has_split _ = False"

text \<open>\<^verbatim>\<open>s.split(";")[0]\<close>: the text before the first semicolon.\<close>

definition first_token :: "string \<Rightarrow> string" where
  "first_token s = takeWhile (\<lambda>c. c \<noteq> CHR '';'') s"

subsection \<open>Settings and collaborators\<close>

text \<open>The constants imported from \<^verbatim>\<open>..settings\<close>; their values are not in the module.\<close>

record settings =
  SAM_WATERMARK_WIDTH :: int
  SAM_ACCESS_LARGE_SIZE :: int
  SAM_ACCESS_LARGE_PATH :: path
  SAM_ACCESS_MEDIUM_SIZE :: int
  SAM_ACCESS_MEDIUM_PATH :: path
  SAM_ACCESS_SMALL_SIZE :: int
  SAM_ACCESS_SMALL_PATH :: path
  SAM_ACCESS_PATH :: path
  SAM_MASTER_PATH :: path
  SAM_IMAGE_FORMATS :: "string list"

text \<open>One record written by \<^verbatim>\<open>output.append\<close>.\<close>

record output_record =
  oasid :: string
  thumbnail :: "string option"
  record_image :: "string option"
  record_type :: string
  large_image :: string
  web_document_url :: string

text \<open>
  The library calls of the module. \<open>'fs\<close> is the local file system, \<open>'r\<close> the remote
  storage behind \<^verbatim>\<open>upload_files\<close>, \<open>'img\<close> a PIL image, \<open>'pix\<close> a fitz pixmap.
  A call that can raise returns \<open>Inl\<close> of the exception (or \<open>Some\<close> of it when it
  has no result); a call that writes returns the file system after it. Two things are
  taken for granted: the image transforms (\<^verbatim>\<open>rotate\<close>, \<^verbatim>\<open>copy\<close>,
  \<^verbatim>\<open>thumbnail\<close>, \<^verbatim>\<open>convert\<close>, \<^verbatim>\<open>add_watermark\<close>) return, and
  \<^verbatim>\<open>upload_files\<close> reads the local files and changes the remote storage only.
  \<^item> \<open>fitz_pixmap\<close> is the three calls \<^verbatim>\<open>fitz.open(pdf_in).loadPage(0).getPixmap()\<close>
    of lines 44 to 46, all outside the \<^verbatim>\<open>try\<close>.
  \<^item> \<open>hasattr_getexif\<close> is \<^verbatim>\<open>hasattr(img, "_getexif")\<close>; \<open>getexif\<close> is
    \<^verbatim>\<open>img.getexif()\<close>, \<open>None\<close> for Python's None, else the tag dictionary.
  \<^item> \<open>img_filename\<close> is the attribute \<^verbatim>\<open>copy_img.filename\<close>, \<open>None\<close> when
    the object has no such attribute.
  \<^item> \<open>Path2 a b\<close> is \<^verbatim>\<open>Path(a, b)\<close> and also \<^verbatim>\<open>a / b\<close>.
  \<^item> \<open>int_max_str_digits\<close> is the interpreter's \<^verbatim>\<open>sys.get_int_max_str_digits()\<close>,
    0 where there is no limit.
  \<^item> \<open>img_height\<close> is the attribute \<^verbatim>\<open>height\<close>; the module reads \<^verbatim>\<open>width\<close>
    only, the height is here to speak about the size of a copy.
\<close>

record ('fs, 'r, 'img, 'pix) lib =
  load_csv_from_sam :: "'fs \<Rightarrow> path \<Rightarrow> exn + row list"
  save_csv_to_sam :: "'fs \<Rightarrow> output_record list \<Rightarrow> path \<Rightarrow> exn option \<times> 'fs"
  upload_files :: "'fs \<Rightarrow> 'r \<Rightarrow> path list \<Rightarrow> bool \<Rightarrow> (exn + string list) \<times> 'r"
  add_watermark :: "'img \<Rightarrow> 'img"
  json_loads :: "string \<Rightarrow> exn + json"
  int_max_str_digits :: nat
  Path2 :: "path \<Rightarrow> string \<Rightarrow> path"
  path_suffix :: "path \<Rightarrow> string"
  path_stem :: "path \<Rightarrow> string"
  path_name :: "path \<Rightarrow> string"
  path_exists :: "'fs \<Rightarrow> path \<Rightarrow> bool"
  path_is_file :: "'fs \<Rightarrow> path \<Rightarrow> bool"
  fitz_pixmap :: "'fs \<Rightarrow> path \<Rightarrow> exn + 'pix"
  writePNG :: "'fs \<Rightarrow> 'pix \<Rightarrow> path \<Rightarrow> exn option \<times> 'fs"
  Image_open :: "'fs \<Rightarrow> path \<Rightarrow> exn + 'img"
  img_load :: "'img \<Rightarrow> exn + 'img"
  hasattr_getexif :: "'img \<Rightarrow> bool"
  getexif :: "'img \<Rightarrow> (nat \<rightharpoonup> int) option"
  ExifTags_TAGS :: "(nat \<times> string) list"
  img_rotate :: "'img \<Rightarrow> int \<Rightarrow> 'img"
  img_copy :: "'img \<Rightarrow> 'img"
  img_thumbnail :: "'img \<Rightarrow> int \<times> int \<Rightarrow> 'img"
  img_width :: "'img \<Rightarrow> int"
  img_height :: "'img \<Rightarrow> int"
  img_mode :: "'img \<Rightarrow> string"
  img_convert :: "'img \<Rightarrow> string \<Rightarrow> 'img"
  img_filename :: "'img \<Rightarrow> string option"
  img_save :: "'fs \<Rightarrow> 'img \<Rightarrow> path \<Rightarrow> int \<Rightarrow> exn option \<times> 'fs"

subsection \<open>Rights check (lines 191 to 202)\<close>

text \<open>
  \<^verbatim>\<open>int(status.split(";")[0])\<close>. A status that is not a string has no
  \<^verbatim>\<open>split\<close> (AttributeError); a token that is no integer is ValueError.
\<close>

definition leading_int :: "('fs, 'r, 'img, 'pix) lib \<Rightarrow> json \<Rightarrow> exn + int" where
  "leading_int L status =
     (case status of
        JString s \<Rightarrow> (case py_int (int_max_str_digits L) (first_token s) of
                       None \<Rightarrow> Inl ValueError | Some n \<Rightarrow> Inr n)
      | _ \<Rightarrow> Inl AttributeError)"

datatype rights = Proceed | SkipLegal | SkipContractual

text \<open>
  The two \<^verbatim>\<open>if\<close> statements, in their order: the contractual status is parsed
  only when the legal check has let the record through.
\<close>

definition check_rights ::
  "('fs, 'r, 'img, 'pix) lib \<Rightarrow> json \<Rightarrow> json \<Rightarrow> exn + rights" where
  "check_rights L legal_status constractual_status =
     (case leading_int L legal_status of
        Inl e \<Rightarrow> Inl e
      | Inr legal \<Rightarrow>
          if legal > 1 then Inr SkipLegal
          else (case leading_int L constractual_status of
                  Inl e \<Rightarrow> Inl e
                | Inr contractual \<Rightarrow>
                    if contractual < 3 then Inr SkipContractual else Inr Proceed))"

subsection \<open>PDF cover (lines 43 to 52)\<close>

definition convert_pdf_cover_to_image ::
  "('fs, 'r, 'img, 'pix) lib \<Rightarrow> 'fs \<Rightarrow> path \<Rightarrow> path \<Rightarrow> (exn + path) \<times> 'fs" where
  "convert_pdf_cover_to_image L fs pdf_in out_folder =
     (case fitz_pixmap L fs pdf_in of
        Inl e \<Rightarrow> (Inl e, fs)
      | Inr pix \<Rightarrow>
          (let out_file = Path2 L out_folder (path_stem L pdf_in) @ ''.png'' in
           case writePNG L fs pix out_file of
             (None, fs') \<Rightarrow> (Inr out_file, fs')
           | (Some e, fs') \<Rightarrow> (Inl (PDFConvertError e), fs')))"

subsection \<open>JPEG generator (lines 55 to 131)\<close>

text \<open>
  The messages stored under \<^verbatim>\<open>resp["error"]\<close>, with the values their f-strings
  interpolate. Each of these f-strings starts with fixed text, so the stored string is
  never empty and \<^verbatim>\<open>convert_resp.get("error")\<close> is truthy exactly when the key
  is set.
\<close>

datatype convert_error =
    FailedToOpen path               \<comment> \<open>\<^verbatim>\<open>Failed to open {img_in} as an image.\<close>\<close>
  | ErrorOpening string exn         \<comment> \<open>\<^verbatim>\<open>Error opening file {img_in.name}: {e}\<close>\<close>
  | FileAlreadyExists path          \<comment> \<open>\<^verbatim>\<open>File already exists: {out_file}\<close>\<close>
  | ErrorSaving string exn          \<comment> \<open>\<^verbatim>\<open>Error saving file {copy_img.filename}: {e}\<close>\<close>

text \<open>
  The dictionary \<open>resp\<close>: the key \<^verbatim>\<open>"error"\<close> and the integer keys of the sizes
  are kept apart, as a string never equals an integer. The sizes are an association list
  read with \<open>map_of\<close>, the latest assignment in front.
\<close>

record resp =
  resp_error :: "convert_error option"
  resp_path :: "(int \<times> path) list"

definition resp_empty :: resp where
  "resp_empty = \<lparr>resp_error = None, resp_path = []\<rparr>"

text \<open>
  Lines 76 to 80: the first tag of \<^verbatim>\<open>ExifTags.TAGS\<close> whose name is Orientation,
  None when there is none.
\<close>

definition orientation_key :: "(nat \<times> string) list \<Rightarrow> nat option" where
  "orientation_key tags =
     map_option fst (find (\<lambda>(tag, tag_value). tag_value = ''Orientation'') tags)"

text \<open>Lines 74 to 92. \<^verbatim>\<open>exif.get(None)\<close> finds nothing.\<close>

definition fix_rotation :: "('fs, 'r, 'img, 'pix) lib \<Rightarrow> 'img \<Rightarrow> 'img" where
  "fix_rotation L img =
     (if hasattr_getexif L img then
        (case getexif L img of
           None \<Rightarrow> img
         | Some exif \<Rightarrow>
             (let orientation =
                    (case orientation_key (ExifTags_TAGS L) of None \<Rightarrow> None | Some k \<Rightarrow> exif k)
              in if orientation = Some 3 then img_rotate L img 180
                 else if orientation = Some 6 then img_rotate L img 270
                 else if orientation = Some 8 then img_rotate L img 90
                 else img))
      else img)"

text \<open>
  The dict literal of lines 107 to 111 (a later key wins over an equal earlier one) and
  \<^verbatim>\<open>access_dirs.get(size) or SAM_ACCESS_PATH\<close>, where an empty string is falsy.
\<close>

definition access_dirs :: "settings \<Rightarrow> int \<rightharpoonup> path" where
  "access_dirs C =
     [SAM_ACCESS_LARGE_SIZE C \<mapsto> SAM_ACCESS_LARGE_PATH C,
      SAM_ACCESS_MEDIUM_SIZE C \<mapsto> SAM_ACCESS_MEDIUM_PATH C,
      SAM_ACCESS_SMALL_SIZE C \<mapsto> SAM_ACCESS_SMALL_PATH C]"

definition out_dir :: "settings \<Rightarrow> int \<Rightarrow> path" where
  "out_dir C sz =
     (case access_dirs C sz of
        None \<Rightarrow> SAM_ACCESS_PATH C
      | Some d \<Rightarrow> if d = [] then SAM_ACCESS_PATH C else d)"

definition out_file :: "('fs, 'r, 'img, 'pix) lib \<Rightarrow> settings \<Rightarrow> path \<Rightarrow> int \<Rightarrow> path" where
  "out_file L C img_in sz = Path2 L (out_dir C sz) (path_stem L img_in @ ''.jpg'')"

text \<open>Lines 95 to 105: what is saved for one size.\<close>

definition sized_copy ::
  "('fs, 'r, 'img, 'pix) lib \<Rightarrow> settings \<Rightarrow> bool \<Rightarrow> 'img \<Rightarrow> int \<Rightarrow> 'img" where
  "sized_copy L C watermark img sz =
     (let copy_img = img_thumbnail L (img_copy L img) (sz, sz);
          copy_img = (if watermark \<and> img_width L copy_img > SAM_WATERMARK_WIDTH C
                      then add_watermark L copy_img else copy_img)
      in if img_mode L copy_img \<noteq> ''RGB'' then img_convert L copy_img ''RGB'' else copy_img)"

text \<open>
  The loop of lines 94 to 130 over the remaining sizes. The handler of line 130 reads
  \<^verbatim>\<open>copy_img.filename\<close>; where the copy has no such attribute the AttributeError
  leaves the generator.
\<close>

fun jpg_sizes ::
  "('fs, 'r, 'img, 'pix) lib \<Rightarrow> settings \<Rightarrow> path \<Rightarrow> int \<Rightarrow> bool \<Rightarrow> bool \<Rightarrow> 'img \<Rightarrow>
     int list \<Rightarrow> resp \<Rightarrow> 'fs \<Rightarrow> exn option \<times> resp \<times> 'fs" where
  "jpg_sizes L C img_in quality watermark overwrite img [] resp fs = (None, resp, fs)"
| "jpg_sizes L C img_in quality watermark overwrite img (sz # sizes) resp fs =
     (let copy_img = sized_copy L C watermark img sz;
          out = out_file L C img_in sz
      in if \<not> overwrite \<and> path_exists L fs out then
           jpg_sizes L C img_in quality watermark overwrite img sizes
             (resp\<lparr>resp_error := Some (FileAlreadyExists out)\<rparr>) fs
         else
           (case img_save L fs copy_img out quality of
              (None, fs') \<Rightarrow>
                jpg_sizes L C img_in quality watermark overwrite img sizes
                  (resp\<lparr>resp_path := (sz, out) # resp_path resp\<rparr>) fs'
            | (Some e, fs') \<Rightarrow>
                (case img_filename L copy_img of
                   None \<Rightarrow> (Some AttributeError, resp, fs')
                 | Some name \<Rightarrow>
                     jpg_sizes L C img_in quality watermark overwrite img sizes
                       (resp\<lparr>resp_error := Some (ErrorSaving name e)\<rparr>) fs')))"

text \<open>
  The generator. \<^verbatim>\<open>img.load()\<close> stands in the \<^verbatim>\<open>else\<close> branch, so what it
  raises is not caught here.
\<close>

definition generate_jpgs ::
  "('fs, 'r, 'img, 'pix) lib \<Rightarrow> settings \<Rightarrow> 'fs \<Rightarrow> path \<Rightarrow> int \<Rightarrow> int list \<Rightarrow> bool \<Rightarrow> bool \<Rightarrow>
     exn option \<times> resp \<times> 'fs" where
  "generate_jpgs L C fs img_in quality sizes watermark overwrite =
     (case Image_open L fs img_in of
        Inl e \<Rightarrow>
          (if e = UnidentifiedImageError
           then (None, resp_empty\<lparr>resp_error := Some (FailedToOpen img_in)\<rparr>, fs)
           else (None, resp_empty\<lparr>resp_error := Some (ErrorOpening (path_name L img_in) e)\<rparr>, fs))
      | Inr img0 \<Rightarrow>
          (case img_load L img0 of
             Inl e \<Rightarrow> (Some e, resp_empty, fs)
           | Inr img \<Rightarrow>
               jpg_sizes L C img_in quality watermark overwrite (fix_rotation L img)
                 sizes resp_empty fs))"

subsection \<open>The pipeline (lines 134 to 293)\<close>

text \<open>The lines that \<^verbatim>\<open>print\<close> writes, with the values their f-strings interpolate.\<close>

datatype message =
    CsvLoaded                           \<comment> \<open>\<^verbatim>\<open>Csv-file loaded...\<close>\<close>
  | SkippingLegal json                  \<comment> \<open>\<^verbatim>\<open>Skipping {filename} due to legal restrictions\<close>\<close>
  | SkippingContractual json            \<comment> \<open>\<^verbatim>\<open>Skipping {filename} due to contractual restrictions\<close>\<close>
  | NoFileFound path                    \<comment> \<open>\<^verbatim>\<open>No file found at: {filepath}\<close>\<close>
  | RefersToDirectory path              \<comment> \<open>\<^verbatim>\<open>Filepath refers to a directory: {filepath}\<close>\<close>
  | UnknownFileformat string            \<comment> \<open>\<^verbatim>\<open>Unknown fileformat for {filepath.name}\<close>\<close>
  | ConvertFailed convert_error         \<comment> \<open>\<^verbatim>\<open>print(convert_resp["error"])\<close>\<close>
  | SuccessfullyConverted json          \<comment> \<open>\<^verbatim>\<open>Successfully converted {filename}\<close>\<close>
  | SuccessfullyUploaded json           \<comment> \<open>\<^verbatim>\<open>Successfully uploaded accessfiles for {filename}\<close>\<close>
  | FailedToUpload json exn             \<comment> \<open>\<^verbatim>\<open>Failed to upload accessfiles for {filename}. Error: {e}\<close>\<close>
  | Done                                \<comment> \<open>\<^verbatim>\<open>Done\<close>\<close>
  | Summary nat nat nat nat             \<comment> \<open>converted, uploaded, failed, skipped\<close>

text \<open>
  The local variables of \<^verbatim>\<open>generate_sam_access_files\<close> together with what the run
  has done to the outside: the local file system, the remote storage and the printed lines.
\<close>

record ('fs, 'r) run =
  local_fs :: 'fs
  remote :: 'r
  outputs :: "output_record list"
  converted :: nat
  skipped :: nat
  failed :: nat
  uploaded :: nat
  printed :: "message list"

definition say :: "message \<Rightarrow> ('fs, 'r) run \<Rightarrow> ('fs, 'r) run" where
  "say m s = s\<lparr>printed := printed s @ [m]\<rparr>"

text \<open>Lines 186 to 189: the row's data, before any check.\<close>

definition load_sam_data ::
  "('fs, 'r, 'img, 'pix) lib \<Rightarrow> row \<Rightarrow> exn + json \<times> json \<times> json" where
  "load_sam_data L file =
     (case file ''oasDataJsonEncoded'' of
        None \<Rightarrow> Inl (KeyError ''oasDataJsonEncoded'')
      | Some encoded \<Rightarrow>
     (case json_loads L encoded of
        Inl e \<Rightarrow> Inl e
      | Inr data \<Rightarrow>
     (case dict_get data ''other_restrictions'' (JString ''4'') of
        Inl e \<Rightarrow> Inl e
      | Inr legal_status \<Rightarrow>
     (case dict_get data ''contractual_status'' (JString ''1'') of
        Inl e \<Rightarrow> Inl e
      | Inr constractual_status \<Rightarrow>
     (case dict_getitem data ''filename'' of
        Inl e \<Rightarrow> Inl e
      | Inr filename \<Rightarrow> Inr (legal_status, constractual_status, filename))))))"

text \<open>
  Where a record stands when line 237 has returned: an exception has left the loop body,
  the record is done (skipped or failed), or the generator has answered.
\<close>

datatype ('fs, 'r) generated =
    Raised exn "('fs, 'r) run"
  | Finished "('fs, 'r) run"
  | Generated (gen_run: "('fs, 'r) run") (gen_filename: json) (gen_filepath: path)
      (gen_rtype: string) (gen_resp: resp)

text \<open>
  Lines 234 to 237: the generator is called with the sizes and the watermark flag only,
  so with its defaults \<^verbatim>\<open>quality=80\<close> and \<^verbatim>\<open>overwrite=False\<close>.
\<close>

definition call_generate_jpgs ::
  "('fs, 'r, 'img, 'pix) lib \<Rightarrow> settings \<Rightarrow> bool \<Rightarrow> ('fs, 'r) run \<Rightarrow> json \<Rightarrow> path \<Rightarrow>
     int list \<Rightarrow> string \<Rightarrow> ('fs, 'r) generated" where
  "call_generate_jpgs L C watermark s filename filepath filesizes rtype =
     (case generate_jpgs L C (local_fs s) filepath 80 filesizes watermark False of
        (Some e, convert_resp, fs') \<Rightarrow> Raised e (s\<lparr>local_fs := fs'\<rparr>)
      | (None, convert_resp, fs') \<Rightarrow>
          Generated (s\<lparr>local_fs := fs'\<rparr>) filename filepath rtype convert_resp)"

text \<open>Lines 215 to 237: the sizes and the record type by suffix, then the generator.\<close>

definition determine_fileformat ::
  "('fs, 'r, 'img, 'pix) lib \<Rightarrow> settings \<Rightarrow> bool \<Rightarrow> ('fs, 'r) run \<Rightarrow> json \<Rightarrow> path \<Rightarrow>
     ('fs, 'r) generated" where
  "determine_fileformat L C watermark s filename filepath =
     (if path_suffix L filepath \<in> set (SAM_IMAGE_FORMATS C) then
        call_generate_jpgs L C watermark s filename filepath
          [SAM_ACCESS_LARGE_SIZE C, SAM_ACCESS_MEDIUM_SIZE C, SAM_ACCESS_SMALL_SIZE C] ''image''
      else if path_suffix L filepath = ''.pdf'' then
        (case convert_pdf_cover_to_image L (local_fs s) filepath ''./images/temp'' of
           (Inl e, fs') \<Rightarrow> Raised e (s\<lparr>local_fs := fs'\<rparr>)
         | (Inr cover, fs') \<Rightarrow>
             call_generate_jpgs L C watermark (s\<lparr>local_fs := fs'\<rparr>) filename cover
               [SAM_ACCESS_MEDIUM_SIZE C, SAM_ACCESS_SMALL_SIZE C] ''web_document'')
      else
        Finished (say (UnknownFileformat (path_name L filepath)) (s\<lparr>skipped := skipped s + 1\<rparr>)))"

text \<open>
  Lines 204 to 213. \<^verbatim>\<open>Path(SAM_MASTER_PATH, filename)\<close> takes strings only: any
  other decoded value is a TypeError.
\<close>

definition check_filepath ::
  "('fs, 'r, 'img, 'pix) lib \<Rightarrow> settings \<Rightarrow> bool \<Rightarrow> ('fs, 'r) run \<Rightarrow> json \<Rightarrow>
     ('fs, 'r) generated" where
  "check_filepath L C watermark s filename =
     (case filename of
        JString name \<Rightarrow>
          (let filepath = Path2 L (SAM_MASTER_PATH C) name in
           if \<not> path_exists L (local_fs s) filepath then
             Finished (say (NoFileFound filepath) (s\<lparr>failed := failed s + 1\<rparr>))
           else if \<not> path_is_file L (local_fs s) filepath then
             Finished (say (RefersToDirectory filepath) (s\<lparr>failed := failed s + 1\<rparr>))
           else determine_fileformat L C watermark s filename filepath)
      | _ \<Rightarrow> Raised TypeError s)"

text \<open>Lines 185 to 237 for one row.\<close>

definition convert_file ::
  "('fs, 'r, 'img, 'pix) lib \<Rightarrow> settings \<Rightarrow> bool \<Rightarrow> ('fs, 'r) run \<Rightarrow> row \<Rightarrow>
     ('fs, 'r) generated" where
  "convert_file L C watermark s file =
     (case load_sam_data L file of
        Inl e \<Rightarrow> Raised e s
      | Inr (legal_status, constractual_status, filename) \<Rightarrow>
          (case check_rights L legal_status constractual_status of
             Inl e \<Rightarrow> Raised e s
           | Inr SkipLegal \<Rightarrow>
               Finished (say (SkippingLegal filename) (s\<lparr>skipped := skipped s + 1\<rparr>))
           | Inr SkipContractual \<Rightarrow>
               Finished (say (SkippingContractual filename) (s\<lparr>skipped := skipped s + 1\<rparr>))
           | Inr Proceed \<Rightarrow> check_filepath L C watermark s filename))"

text \<open>
  Lines 254 to 256: the paths handed to the upload. \<^verbatim>\<open>Path(None)\<close> is a TypeError,
  raised before the \<^verbatim>\<open>try\<close>; \<^verbatim>\<open>if large\<close> is false for None and for the
  empty string.
\<close>

definition upload_paths :: "settings \<Rightarrow> resp \<Rightarrow> exn + path list" where
  "upload_paths C convert_resp =
     (case (map_of (resp_path convert_resp) (SAM_ACCESS_SMALL_SIZE C),
            map_of (resp_path convert_resp) (SAM_ACCESS_MEDIUM_SIZE C)) of
        (Some small, Some medium) \<Rightarrow>
          Inr ([small, medium] @
               (case map_of (resp_path convert_resp) (SAM_ACCESS_LARGE_SIZE C) of
                  None \<Rightarrow> []
                | Some large \<Rightarrow> if large = [] then [] else [large]))
      | _ \<Rightarrow> Inl TypeError)"

text \<open>
  Lines 275 to 284. \<^verbatim>\<open>large or ""\<close> is the empty string for None and \<open>large\<close>
  itself otherwise.
\<close>

definition output_row ::
  "('fs, 'r, 'img, 'pix) lib \<Rightarrow> path \<Rightarrow> string \<Rightarrow> string option \<Rightarrow> string option \<Rightarrow>
     string option \<Rightarrow> output_record" where
  "output_row L filepath rtype small medium large =
     \<lparr>oasid = path_stem L filepath, thumbnail = small, record_image = medium,
      record_type = rtype, large_image = (case large of None \<Rightarrow> [] | Some l \<Rightarrow> l),
      web_document_url = ''web_url''\<rparr>"

text \<open>
  Lines 239 to 284: what the pipeline does with the generator's answer. Inside the
  \<^verbatim>\<open>try\<close>, \<^verbatim>\<open>urls[0]\<close>, \<^verbatim>\<open>urls[1]\<close> and \<^verbatim>\<open>urls[2]\<close> raise
  IndexError on a list of fewer than three urls, which the handler catches like a failure
  of the upload itself.
\<close>

definition store_result ::
  "('fs, 'r, 'img, 'pix) lib \<Rightarrow> settings \<Rightarrow> bool \<Rightarrow> bool \<Rightarrow> ('fs, 'r) run \<Rightarrow> json \<Rightarrow> path \<Rightarrow>
     string \<Rightarrow> resp \<Rightarrow> exn option \<times> ('fs, 'r) run" where
  "store_result L C upload overwrite s filename filepath rtype convert_resp =
     (case resp_error convert_resp of
        Some err \<Rightarrow> (None, say (ConvertFailed err) (s\<lparr>failed := failed s + 1\<rparr>))
      | None \<Rightarrow>
          (let s1 = say (SuccessfullyConverted filename) (s\<lparr>converted := converted s + 1\<rparr>);
               small = map_of (resp_path convert_resp) (SAM_ACCESS_SMALL_SIZE C);
               medium = map_of (resp_path convert_resp) (SAM_ACCESS_MEDIUM_SIZE C);
               large = map_of (resp_path convert_resp) (SAM_ACCESS_LARGE_SIZE C)
           in if upload then
                (case upload_paths C convert_resp of
                   Inl e \<Rightarrow> (Some e, s1)
                 | Inr filepaths \<Rightarrow>
                     (case upload_files L (local_fs s1) (remote s1) filepaths overwrite of
                        (Inl e, r') \<Rightarrow>
                          (None, say (FailedToUpload filename e)
                                   (s1\<lparr>remote := r', failed := failed s1 + 1\<rparr>))
                      | (Inr urls, r') \<Rightarrow>
                          if length urls < 3 then
                            (None, say (FailedToUpload filename IndexError)
                                     (s1\<lparr>remote := r', failed := failed s1 + 1\<rparr>))
                          else
                            (let s2 = say (SuccessfullyUploaded filename)
                                        (s1\<lparr>remote := r', uploaded := uploaded s1 + 1\<rparr>)
                             in (None, s2\<lparr>outputs := outputs s2 @
                                   [output_row L filepath rtype
                                      (Some (urls ! 0)) (Some (urls ! 1)) (Some (urls ! 2))]\<rparr>))))
              else
                (None, s1\<lparr>outputs := outputs s1 @
                          [output_row L filepath rtype small medium large]\<rparr>)))"

text \<open>
  How the body of the loop ends from where line 237 left the record: with the exception,
  with the next row, or through lines 239 to 284.
\<close>

definition conclude ::
  "('fs, 'r, 'img, 'pix) lib \<Rightarrow> settings \<Rightarrow> bool \<Rightarrow> bool \<Rightarrow> ('fs, 'r) generated \<Rightarrow>
     exn option \<times> ('fs, 'r) run" where
  "conclude L C upload overwrite g =
     (case g of
        Raised e s' \<Rightarrow> (Some e, s')
      | Finished s' \<Rightarrow> (None, s')
      | Generated s' filename filepath rtype convert_resp \<Rightarrow>
          store_result L C upload overwrite s' filename filepath rtype convert_resp)"

text \<open>The body of the loop of line 184 for one row.\<close>

definition process_file ::
  "('fs, 'r, 'img, 'pix) lib \<Rightarrow> settings \<Rightarrow> bool \<Rightarrow> bool \<Rightarrow> bool \<Rightarrow> ('fs, 'r) run \<Rightarrow> row \<Rightarrow>
     exn option \<times> ('fs, 'r) run" where
  "process_file L C watermark upload overwrite s file =
     conclude L C upload overwrite (convert_file L C watermark s file)"

text \<open>The loop: an exception that leaves the body leaves the loop.\<close>

fun files_loop ::
  "('fs, 'r, 'img, 'pix) lib \<Rightarrow> settings \<Rightarrow> bool \<Rightarrow> bool \<Rightarrow> bool \<Rightarrow> ('fs, 'r) run \<Rightarrow> row list \<Rightarrow>
     exn option \<times> ('fs, 'r) run" where
  "files_loop L C watermark upload overwrite s [] = (None, s)"
| "files_loop L C watermark upload overwrite s (file # rest) =
     (case process_file L C watermark upload overwrite s file of
        (Some e, s') \<Rightarrow> (Some e, s')
      | (None, s') \<Rightarrow> files_loop L C watermark upload overwrite s' rest)"

definition initial_run :: "'fs \<Rightarrow> 'r \<Rightarrow> ('fs, 'r) run" where
  "initial_run fs0 r0 =
     \<lparr>local_fs = fs0, remote = r0, outputs = [], converted = 0, skipped = 0, failed = 0,
      uploaded = 0, printed = []\<rparr>"

text \<open>
  The whole function, from the file system \<open>fs0\<close> and the remote storage \<open>r0\<close>. The
  result is the exception that left the function, if any, and the run as it stood then.
\<close>

definition generate_sam_access_files ::
  "('fs, 'r, 'img, 'pix) lib \<Rightarrow> settings \<Rightarrow> 'fs \<Rightarrow> 'r \<Rightarrow> path \<Rightarrow> path \<Rightarrow> bool \<Rightarrow> bool \<Rightarrow> bool \<Rightarrow>
     exn option \<times> ('fs, 'r) run" where
  "generate_sam_access_files L C fs0 r0 csv_in csv_out watermark upload overwrite =
     (case load_csv_from_sam L fs0 csv_in of
        Inl e \<Rightarrow> (Some e, initial_run fs0 r0)
      | Inr rows \<Rightarrow>
          (case files_loop L C watermark upload overwrite
                  (say CsvLoaded (initial_run fs0 r0)) rows of
             (Some e, s) \<Rightarrow> (Some e, s)
           | (None, s) \<Rightarrow>
               (case (if outputs s \<noteq> [] then save_csv_to_sam L (local_fs s) (outputs s) csv_out
                      else (None, local_fs s)) of
                  (Some e, fs') \<Rightarrow> (Some e, s\<lparr>local_fs := fs'\<rparr>)
                | (None, fs') \<Rightarrow>
                    (None, say (Summary (converted s) (uploaded s) (failed s) (skipped s))
                             (say Done (s\<lparr>local_fs := fs'\<rparr>))))))"

text \<open>
  The \<^verbatim>\<open>try\<close> of lines 257 to 273 ends in its handler: the upload raises, or it
  returns fewer than three urls and the indexing raises.
\<close>

definition upload_fails ::
  "('fs, 'r, 'img, 'pix) lib \<Rightarrow> settings \<Rightarrow> bool \<Rightarrow> ('fs, 'r) run \<Rightarrow> resp \<Rightarrow> bool" where
  "upload_fails L C overwrite s convert_resp =
     (case upload_paths C convert_resp of
        Inl e \<Rightarrow> False
      | Inr filepaths \<Rightarrow>
          (case fst (upload_files L (local_fs s) (remote s) filepaths overwrite) of
             Inl e \<Rightarrow> True
           | Inr urls \<Rightarrow> length urls < 3))"

text \<open>
  Two runs agree on what has been done locally: the files on the disk, the conversions and
  the skips. Two records stand alike after line 237 when they have raised the same
  exception, or are both done, or hold the same answer of the generator, and their
  runs agree locally.
\<close>

definition same_local :: "('fs, 'r) run \<Rightarrow> ('fs, 'r) run \<Rightarrow> bool" where
  "same_local s t =
     (local_fs s = local_fs t \<and> converted s = converted t \<and> skipped s = skipped t)"

fun same_generated :: "('fs, 'r) generated \<Rightarrow> ('fs, 'r) generated \<Rightarrow> bool" where
  "same_generated (Raised e s) (Raised e' t) = (e = e' \<and> same_local s t)"
| "same_generated (Finished s) (Finished t) = same_local s t"
| "same_generated (Generated s filename filepath rtype resp)
     (Generated t filename' filepath' rtype' resp') =
     (same_local s t \<and> filename = filename' \<and> filepath = filepath' \<and> rtype = rtype'
      \<and> resp = resp')"
| "same_generated _ _ = False"

subsection \<open>The size of a rendered copy\<close>

text \<open>\<^verbatim>\<open>img.size\<close>: width and height.\<close>

definition img_size :: "('fs, 'r, 'img, 'pix) lib \<Rightarrow> 'img \<Rightarrow> int \<times> int" where
  "img_size L img = (img_width L img, img_height L img)"

definition ceil_div :: "int \<Rightarrow> int \<Rightarrow> int" where
  "ceil_div a b = - ((- a) div b)"

text \<open>
  Modelled from the spec: the size of a copy after \<^verbatim>\<open>copy_img.thumbnail((size, size))\<close>.
  Pillow is not among the sources; the spec (4.4, step a) asks of this step a
  bounding-box-constrained proportional copy, and the comment of line 96 says that
  \<^verbatim>\<open>thumbnail\<close> does not enlarge a smaller image and keeps the aspect ratio. The
  definition is the computation by which \<^verbatim>\<open>Image.thumbnail\<close> (Pillow 7.1 and later)
  answers that, with exact fractions in the place of its floating point numbers:
  an image that fits the box \<open>(x, y)\<close> is left as it is; otherwise, with
  \<^verbatim>\<open>aspect = width / height\<close>, the side that the box does not bind becomes
  \<^verbatim>\<open>y * aspect\<close> or \<^verbatim>\<open>x / aspect\<close>, rounded down or up, whichever gives the
  aspect ratio nearer to \<^verbatim>\<open>aspect\<close> (down when both are as near, and down when that
  is 0), and then raised to 1 when it is 0.
\<close>

definition thumbnail_size :: "int \<times> int \<Rightarrow> int \<times> int \<Rightarrow> int \<times> int" where
  "thumbnail_size dims box =
     (let width = fst dims; height = snd dims; x = fst box; y = snd box in
      if x \<ge> width \<and> y \<ge> height then dims
      else if x * height \<ge> y * width then
        (let lo = (y * width) div height;
             hi = ceil_div (y * width) height;
             n = (if \<bar>width * y - lo * height\<bar> \<le> \<bar>width * y - hi * height\<bar> then lo else hi)
         in (max n 1, y))
      else
        (let lo = (x * height) div width;
             hi = ceil_div (x * height) width;
             n = (if lo = 0 \<or> \<bar>width * lo - x * height\<bar> * hi \<le> \<bar>width * hi - x * height\<bar> * lo
                  then lo else hi)
         in (x, max n 1)))"

subsection \<open>An example installation\<close>

text \<open>
  One concrete choice of the collaborators, on which the theorems below are instantiated
  and the pipeline is run: a disk as a list of named nodes (a later write stands in
  front), pictures as their size, mode and tags, and a remote store that remembers the
  paths it has taken.
\<close>

record picture =
  pic_width :: int
  pic_height :: int
  pic_mode :: string
  pic_jpeg :: bool                      \<comment> \<open>decoded by a plugin that has \<^verbatim>\<open>_getexif\<close>\<close>
  pic_exif :: "(nat \<times> int) list"
  pic_turned :: int                     \<comment> \<open>degrees turned so far\<close>
  pic_marked :: bool                    \<comment> \<open>carries the watermark\<close>

datatype node =
    Directory
  | Picture picture                     \<comment> \<open>a file that \<^verbatim>\<open>Image.open\<close> decodes\<close>
  | Pdf picture                         \<comment> \<open>a PDF and what its first page renders to\<close>
  | Scrap                               \<comment> \<open>a file no decoder accepts\<close>
  | Csv "(string \<times> string) list list"
  | Export "output_record list"

type_synonym disk = "(path \<times> node) list"

definition ex_name :: "path \<Rightarrow> string" where
  "ex_name p = rev (takeWhile (\<lambda>c. c \<noteq> CHR ''/'') (rev p))"

definition ex_suffix :: "path \<Rightarrow> string" where
  "ex_suffix p =
     (let n = ex_name p; e = rev (takeWhile (\<lambda>c. c \<noteq> CHR ''.'') (rev n))
      in if e = [] \<or> length e + 1 = length n \<or> CHR ''.'' \<notin> set n then [] else CHR ''.'' # e)"

definition ex_stem :: "path \<Rightarrow> string" where
  "ex_stem p = take (length (ex_name p) - length (ex_suffix p)) (ex_name p)"

definition ex_Path2 :: "path \<Rightarrow> string \<Rightarrow> path" where
  "ex_Path2 a b = (if take 1 b = ''/'' then b else a @ ''/'' @ b)"

definition ex_thumbnail :: "picture \<Rightarrow> int \<times> int \<Rightarrow> picture" where
  "ex_thumbnail p box =
     (let dims = thumbnail_size (pic_width p, pic_height p) box
      in p\<lparr>pic_width := fst dims, pic_height := snd dims\<rparr>)"

definition ex_json_table :: "(string \<times> json) list" where
  \<open>ex_json_table =
     [(''{"filename": "photo.jpg", "other_restrictions": "0", "contractual_status": "3"}'',
       JObject [(''filename'', JString ''photo.jpg''), (''other_restrictions'', JString ''0''),
                (''contractual_status'', JString ''3'')]),
      (''{"filename": "report.pdf", "other_restrictions": "1;7", "contractual_status": "4"}'',
       JObject [(''filename'', JString ''report.pdf''), (''other_restrictions'', JString ''1;7''),
                (''contractual_status'', JString ''4'')]),
      (''{"filename": "scan.tif", "other_restrictions": "1", "contractual_status": "3"}'',
       JObject [(''filename'', JString ''scan.tif''), (''other_restrictions'', JString ''1''),
                (''contractual_status'', JString ''3'')]),
      (''{"filename": "secret.jpg", "other_restrictions": "2;3", "contractual_status": "1"}'',
       JObject [(''filename'', JString ''secret.jpg''), (''other_restrictions'', JString ''2;3''),
                (''contractual_status'', JString ''1'')]),
      (''{"filename": "photo.jpg", "other_restrictions": "unknown", "contractual_status": "3"}'',
       JObject [(''filename'', JString ''photo.jpg''), (''other_restrictions'', JString ''unknown''),
                (''contractual_status'', JString ''3'')]),
      (''{"filename": "photo.jpg", "contractual_status": "3"}'',
       JObject [(''filename'', JString ''photo.jpg''), (''contractual_status'', JString ''3'')]),
      (''{"filename": "photo.jpg", "other_restrictions": "1"}'',
       JObject [(''filename'', JString ''photo.jpg''), (''other_restrictions'', JString ''1'')]),
      (''{"filename": "photo.jpg", "other_restrictions": "1", "contractual_status": ""}'',
       JObject [(''filename'', JString ''photo.jpg''), (''other_restrictions'', JString ''1''),
                (''contractual_status'', JString [])]),
      (''{"filename": "photo.jpg", "other_restrictions": 0, "contractual_status": "3"}'',
       JObject [(''filename'', JString ''photo.jpg''), (''other_restrictions'', JNumber 0),
                (''contractual_status'', JString ''3'')]),
      (''{"filename": "torn.pdf", "other_restrictions": "1", "contractual_status": "3"}'',
       JObject [(''filename'', JString ''torn.pdf''), (''other_restrictions'', JString ''1''),
                (''contractual_status'', JString ''3'')])]\<close>

definition ex_lib :: "(disk, path list, picture, picture) lib" where
  "ex_lib =
     \<lparr>load_csv_from_sam =
        (\<lambda>fs p. case map_of fs p of Some (Csv rows) \<Rightarrow> Inr (map map_of rows) | _ \<Rightarrow> Inl OSError),
      save_csv_to_sam = (\<lambda>fs rows p. (None, (p, Export rows) # fs)),
      upload_files =
        (\<lambda>fs r paths overwrite.
           if \<not> overwrite \<and> list_ex (\<lambda>p. p \<in> set r) paths then (Inl RuntimeError, r)
           else (Inr (map (\<lambda>p. ''https://store/'' @ p) paths), paths @ r)),
      add_watermark = (\<lambda>img. img\<lparr>pic_marked := True\<rparr>),
      json_loads =
        (\<lambda>text. case map_of ex_json_table text of None \<Rightarrow> Inl JSONDecodeError | Some v \<Rightarrow> Inr v),
      int_max_str_digits = 4300,
      Path2 = ex_Path2,
      path_suffix = ex_suffix,
      path_stem = ex_stem,
      path_name = ex_name,
      path_exists = (\<lambda>fs p. map_of fs p \<noteq> None),
      path_is_file = (\<lambda>fs p. map_of fs p \<noteq> None \<and> map_of fs p \<noteq> Some Directory),
      fitz_pixmap = (\<lambda>fs p. case map_of fs p of Some (Pdf pix) \<Rightarrow> Inr pix | _ \<Rightarrow> Inl RuntimeError),
      writePNG =
        (\<lambda>fs pix p.
           if map_of fs ''./images/temp'' = Some Directory then (None, (p, Picture pix) # fs)
           else (Some OSError, fs)),
      Image_open =
        (\<lambda>fs p. case map_of fs p of
                   Some (Picture pic) \<Rightarrow> Inr pic
                 | Some _ \<Rightarrow> Inl UnidentifiedImageError
                 | None \<Rightarrow> Inl OSError),
      img_load = Inr,
      hasattr_getexif = pic_jpeg,
      getexif = (\<lambda>img. Some (map_of (pic_exif img))),
      ExifTags_TAGS =
        [(270, ''ImageDescription''), (271, ''Make''), (272, ''Model''), (274, ''Orientation''),
         (282, ''XResolution''), (283, ''YResolution'')],
      img_rotate = (\<lambda>img angle. img\<lparr>pic_turned := (pic_turned img + angle) mod 360\<rparr>),
      img_copy = (\<lambda>img. img),
      img_thumbnail = ex_thumbnail,
      img_width = pic_width,
      img_height = pic_height,
      img_mode = pic_mode,
      img_convert = (\<lambda>img m. img\<lparr>pic_mode := m\<rparr>),
      img_filename = (\<lambda>img. None),
      img_save = (\<lambda>fs img p quality. (None, (p, Picture img) # fs))\<rparr>"

definition ex_settings :: settings where
  "ex_settings =
     \<lparr>SAM_WATERMARK_WIDTH = 400,
      SAM_ACCESS_LARGE_SIZE = 1920, SAM_ACCESS_LARGE_PATH = ''access/large'',
      SAM_ACCESS_MEDIUM_SIZE = 640, SAM_ACCESS_MEDIUM_PATH = ''access/medium'',
      SAM_ACCESS_SMALL_SIZE = 150, SAM_ACCESS_SMALL_PATH = ''access/small'',
      SAM_ACCESS_PATH = ''access'', SAM_MASTER_PATH = ''master'',
      SAM_IMAGE_FORMATS = [''.jpg'', ''.jpeg'', ''.png'', ''.tif'']\<rparr>"

definition ex_photo :: picture where
  "ex_photo =
     \<lparr>pic_width = 3000, pic_height = 2000, pic_mode = ''RGB'', pic_jpeg = True,
      pic_exif = [(271, 0), (274, 6)], pic_turned = 0, pic_marked = False\<rparr>"

definition ex_scan :: picture where
  "ex_scan =
     \<lparr>pic_width = 1200, pic_height = 1800, pic_mode = ''L'', pic_jpeg = False,
      pic_exif = [(274, 3)], pic_turned = 0, pic_marked = False\<rparr>"

definition ex_page :: picture where
  "ex_page =
     \<lparr>pic_width = 595, pic_height = 842, pic_mode = ''RGB'', pic_jpeg = False,
      pic_exif = [], pic_turned = 0, pic_marked = False\<rparr>"

text \<open>A strip of 3000 by 10 pixels.\<close>

definition ex_strip :: picture where
  "ex_strip =
     \<lparr>pic_width = 3000, pic_height = 10, pic_mode = ''RGB'', pic_jpeg = False,
      pic_exif = [], pic_turned = 0, pic_marked = False\<rparr>"

text \<open>The disk: the export \<^verbatim>\<open>in.csv\<close> with the given rows, and the master files.\<close>

definition ex_masters :: disk where
  "ex_masters =
     [(''master/photo.jpg'', Picture ex_photo), (''master/scan.tif'', Picture ex_scan),
      (''master/report.pdf'', Pdf ex_page), (''master/secret.jpg'', Picture ex_photo),
      (''master/torn.pdf'', Scrap), (''master'', Directory)]"

definition ex_disk :: "string list \<Rightarrow> disk" where
  "ex_disk texts =
     (''in.csv'', Csv (map (\<lambda>t. [(''id'', ''1''), (''oasDataJsonEncoded'', t)]) texts))
       # (''./images/temp'', Directory) # ex_masters"

text \<open>The same disk without the directory for the covers.\<close>

definition ex_disk_no_temp :: "string list \<Rightarrow> disk" where
  "ex_disk_no_temp texts =
     (''in.csv'', Csv (map (\<lambda>t. [(''id'', ''1''), (''oasDataJsonEncoded'', t)]) texts))
       # ex_masters"

definition ex_row :: "string \<Rightarrow> row" where
  "ex_row t = map_of [(''id'', ''1''), (''oasDataJsonEncoded'', t)]"

definition text_photo :: string where
  \<open>text_photo = ''{"filename": "photo.jpg", "other_restrictions": "0", "contractual_status": "3"}''\<close>

definition text_report :: string where
  \<open>text_report = ''{"filename": "report.pdf", "other_restrictions": "1;7", "contractual_status": "4"}''\<close>

definition text_scan :: string where
  \<open>text_scan = ''{"filename": "scan.tif", "other_restrictions": "1", "contractual_status": "3"}''\<close>

definition text_secret :: string where
  \<open>text_secret = ''{"filename": "secret.jpg", "other_restrictions": "2;3", "contractual_status": "1"}''\<close>

definition text_unknown :: string where
  \<open>text_unknown = ''{"filename": "photo.jpg", "other_restrictions": "unknown", "contractual_status": "3"}''\<close>

definition text_no_legal :: string where
  \<open>text_no_legal = ''{"filename": "photo.jpg", "contractual_status": "3"}''\<close>

definition text_no_contract :: string where
  \<open>text_no_contract = ''{"filename": "photo.jpg", "other_restrictions": "1"}''\<close>

definition text_empty_contract :: string where
  \<open>text_empty_contract = ''{"filename": "photo.jpg", "other_restrictions": "1", "contractual_status": ""}''\<close>

definition text_number :: string where
  \<open>text_number = ''{"filename": "photo.jpg", "other_restrictions": 0, "contractual_status": "3"}''\<close>



section \<open>Properties\<close>

subsection \<open>Unfolding the loop body\<close>

lemma conclude_simps [simp]:
  "conclude L C upload overwrite (Raised e s) = (Some e, s)"
  "conclude L C upload overwrite (Finished s) = (None, s)"
  "conclude L C upload overwrite (Generated s filename filepath rtype convert_resp) =
     store_result L C upload overwrite s filename filepath rtype convert_resp"
  by (simp_all add: conclude_def)

lemma check_rights_parsed:
  assumes "py_int (int_max_str_digits L) (first_token legal_status) = Some legal"
      and "py_int (int_max_str_digits L) (first_token constractual_status) = Some contractual"
  shows "check_rights L (JString legal_status) (JString constractual_status) =
           Inr (if legal > 1 then SkipLegal
                else if contractual < 3 then SkipContractual else Proceed)"
  using assms by (simp add: check_rights_def leading_int_def)

lemma convert_file_loaded:
  assumes "load_sam_data L file = Inr (legal_status, constractual_status, filename)"
  shows "convert_file L C watermark s file =
           (case check_rights L legal_status constractual_status of
              Inl e \<Rightarrow> Raised e s
            | Inr SkipLegal \<Rightarrow>
                Finished (say (SkippingLegal filename) (s\<lparr>skipped := skipped s + 1\<rparr>))
            | Inr SkipContractual \<Rightarrow>
                Finished (say (SkippingContractual filename) (s\<lparr>skipped := skipped s + 1\<rparr>))
            | Inr Proceed \<Rightarrow> check_filepath L C watermark s filename)"
  using assms by (simp add: convert_file_def)

subsection \<open>What \<^verbatim>\<open>int\<close> accepts\<close>

text \<open>A token that the parse accepts is made of ASCII characters only.\<close>

lemma digit_val_ascii: "digit_val c = Some v \<Longrightarrow> (of_char c :: nat) < 128"
  by (simp add: digit_val_def Let_def split: if_splits)

lemma py_digits_ascii:
  "py_digits acc s = Some n \<Longrightarrow> is_ascii s"
proof (induction acc s rule: py_digits.induct)
  case (1 acc)
  then show ?case by (simp add: is_ascii_def)
next
  case (2 acc c)
  then show ?case
    by (auto simp add: is_ascii_def dest: digit_val_ascii split: option.splits)
next
  case (3 acc c d cs)
  then show ?case
    by (auto simp add: is_ascii_def dest: digit_val_ascii split: option.splits if_splits)
qed

lemma py_unsigned_ascii: "py_unsigned s = Some n \<Longrightarrow> is_ascii s"
  by (cases s)
    (auto simp add: py_unsigned_def is_ascii_def dest: digit_val_ascii py_digits_ascii
      split: option.splits)

lemma py_isspace_ascii: "py_isspace c \<Longrightarrow> (of_char c :: nat) < 128"
  by (auto simp add: py_isspace_def Let_def)

lemma dropWhile_ascii:
  "is_ascii (dropWhile py_isspace s) \<Longrightarrow> is_ascii s"
  by (induction s) (auto simp add: is_ascii_def dest: py_isspace_ascii split: if_splits)

lemma py_strip_ascii: "is_ascii (py_strip s) \<Longrightarrow> is_ascii s"
proof -
  assume "is_ascii (py_strip s)"
  then have "is_ascii (dropWhile py_isspace (rev (dropWhile py_isspace s)))"
    by (simp add: py_strip_def is_ascii_def)
  then have "is_ascii (rev (dropWhile py_isspace s))" by (rule dropWhile_ascii)
  then have "is_ascii (dropWhile py_isspace s)" by (simp add: is_ascii_def)
  then show ?thesis by (rule dropWhile_ascii)
qed

lemma py_int_ascii: "py_int limit s = Some n \<Longrightarrow> is_ascii s"
proof -
  assume p: "py_int limit s = Some n"
  then obtain c cs where s: "py_strip s = c # cs"
    by (cases "py_strip s") (simp_all add: py_int_def)
  define body where "body = (if c = CHR ''-'' \<or> c = CHR ''+'' then cs else c # cs)"
  from p s obtain m where m: "py_unsigned body = Some m"
    by (cases "py_unsigned body") (simp_all add: py_int_def body_def Let_def)
  have "is_ascii body" using m by (rule py_unsigned_ascii)
  then have "is_ascii (c # cs)"
    by (auto simp add: body_def is_ascii_def split: if_splits)
  then show ?thesis using s py_strip_ascii by simp
qed

subsection \<open>The rights filter\<close>

text \<open>
  Claim C2. When the leading integer tokens of both status strings parse (as \<^verbatim>\<open>int\<close>
  parses them, under the interpreter's limit on digits), the record is skipped for legal
  reasons if the legal code is greater than 1; otherwise it is skipped for contractual
  reasons if the contractual code is less than 3; otherwise it goes on to the path checks.
  The legal check comes first: a record that fails both is printed as a legal skip. Both
  tokens are then ASCII, where \<open>py_int\<close> is \<^verbatim>\<open>int\<close>.
\<close>

theorem rights_filter_order:
  assumes legal: "py_int (int_max_str_digits L) (first_token legal_status) = Some legal"
      and contractual:
        "py_int (int_max_str_digits L) (first_token constractual_status) = Some contractual"
      and data: "load_sam_data L file =
                   Inr (JString legal_status, JString constractual_status, filename)"
  shows "check_rights L (JString legal_status) (JString constractual_status) =
           Inr (if legal > 1 then SkipLegal
                else if contractual < 3 then SkipContractual else Proceed)
       \<and> convert_file L C watermark s file =
           (if legal > 1 then
              Finished (say (SkippingLegal filename) (s\<lparr>skipped := skipped s + 1\<rparr>))
            else if contractual < 3 then
              Finished (say (SkippingContractual filename) (s\<lparr>skipped := skipped s + 1\<rparr>))
            else check_filepath L C watermark s filename)
       \<and> (legal > 1 \<longrightarrow>
            process_file L C watermark upload overwrite s file =
              (None, say (SkippingLegal filename) (s\<lparr>skipped := skipped s + 1\<rparr>)))
       \<and> (legal \<le> 1 \<and> contractual < 3 \<longrightarrow>
            process_file L C watermark upload overwrite s file =
              (None, say (SkippingContractual filename) (s\<lparr>skipped := skipped s + 1\<rparr>)))
       \<and> is_ascii (first_token legal_status) \<and> is_ascii (first_token constractual_status)"
  by (simp add: process_file_def convert_file_loaded [OF data]
        check_rights_parsed [OF legal contractual]
        py_int_ascii [OF legal] py_int_ascii [OF contractual])

text \<open>
  The row of \<^verbatim>\<open>secret.jpg\<close> has the legal status \<^verbatim>\<open>2;3\<close> and the contractual
  status \<^verbatim>\<open>1\<close>: it fails both checks and is printed as a legal skip.
\<close>

theorem rights_filter_order_witness:
  "py_int (int_max_str_digits ex_lib) (first_token ''2;3'') = Some 2
   \<and> py_int (int_max_str_digits ex_lib) (first_token ''1'') = Some 1
   \<and> load_sam_data ex_lib (ex_row text_secret) =
       Inr (JString ''2;3'', JString ''1'', JString ''secret.jpg'')
   \<and> check_rights ex_lib (JString ''2;3'') (JString ''1'') = Inr SkipLegal
   \<and> process_file ex_lib ex_settings False False False (initial_run (ex_disk []) [])
        (ex_row text_secret) =
       (None, say (SkippingLegal (JString ''secret.jpg''))
                ((initial_run (ex_disk []) [])\<lparr>skipped := 1\<rparr>))"
proof -
  have legal: "py_int (int_max_str_digits ex_lib) (first_token ''2;3'') = Some 2"
    by code_simp
  have contractual: "py_int (int_max_str_digits ex_lib) (first_token ''1'') = Some 1"
    by code_simp
  have data: "load_sam_data ex_lib (ex_row text_secret) =
                Inr (JString ''2;3'', JString ''1'', JString ''secret.jpg'')"
    by code_simp
  show ?thesis
    using rights_filter_order [OF legal contractual data, of ex_settings False
        "initial_run (ex_disk []) []" False False] legal contractual data
    by (simp add: initial_run_def)
qed

lemma load_sam_data_object:
  assumes "file ''oasDataJsonEncoded'' = Some encoded"
      and "json_loads L encoded = Inr (JObject kvs)"
      and "map_of kvs ''filename'' = Some filename"
  shows "load_sam_data L file =
           Inr (case map_of kvs ''other_restrictions'' of None \<Rightarrow> JString ''4'' | Some v \<Rightarrow> v,
                case map_of kvs ''contractual_status'' of None \<Rightarrow> JString ''1'' | Some v \<Rightarrow> v,
                filename)"
  using assms by (simp add: load_sam_data_def)

lemma leading_int_defaults:
  "leading_int L (JString ''4'') = Inr 4" "leading_int L (JString ''1'') = Inr 1"
  by code_simp+

text \<open>
  Claim C3, as stated, fails on a malformed status. The row below has the legal status
  \<^verbatim>\<open>unknown\<close>: \<^verbatim>\<open>int\<close> raises ValueError, which leaves the loop body and the
  whole function, so the record is not skipped and the row after it is never reached.
\<close>

theorem malformed_status_counterexample:
  "process_file ex_lib ex_settings False False False (initial_run (ex_disk []) [])
     (ex_row text_unknown) = (Some ValueError, initial_run (ex_disk []) [])
   \<and> fst (generate_sam_access_files ex_lib ex_settings (ex_disk [text_unknown, text_photo]) []
            ''in.csv'' ''out.csv'' False False False) = Some ValueError
   \<and> skipped (snd (generate_sam_access_files ex_lib ex_settings
            (ex_disk [text_unknown, text_photo]) [] ''in.csv'' ''out.csv'' False False False)) = 0"
  by code_simp

text \<open>
  Claim C3, amended. For a row whose JSON decodes to an object with a filename: a missing
  legal status reads as \<^verbatim>\<open>4\<close> and the record is skipped for legal reasons; with a
  legal code of at most 1, a missing contractual status reads as \<^verbatim>\<open>1\<close> and the
  record is skipped for contractual reasons. A status that is there is not replaced by a
  default. When it is a string whose leading token, of ASCII characters, is no integer for
  \<^verbatim>\<open>int\<close> (also because it has more digits than the interpreter's limit), ValueError
  leaves the loop body; when it is no string, AttributeError does. (The contractual
  status is parsed only when the legal code is at most 1.)
\<close>

theorem missing_status_defaults:
  assumes row: "file ''oasDataJsonEncoded'' = Some encoded"
      and decoded: "json_loads L encoded = Inr (JObject kvs)"
      and name: "map_of kvs ''filename'' = Some filename"
  shows "(map_of kvs ''other_restrictions'' = None \<longrightarrow>
            load_sam_data L file =
              Inr (JString ''4'',
                   case map_of kvs ''contractual_status'' of None \<Rightarrow> JString ''1'' | Some v \<Rightarrow> v,
                   filename)
          \<and> leading_int L (JString ''4'') = Inr 4
          \<and> process_file L C watermark upload overwrite s file =
              (None, say (SkippingLegal filename) (s\<lparr>skipped := skipped s + 1\<rparr>)))
       \<and> (map_of kvs ''other_restrictions'' = Some (JString legal_status)
          \<and> py_int (int_max_str_digits L) (first_token legal_status) = Some legal \<and> legal \<le> 1
          \<and> map_of kvs ''contractual_status'' = None \<longrightarrow>
            load_sam_data L file = Inr (JString legal_status, JString ''1'', filename)
          \<and> leading_int L (JString ''1'') = Inr 1
          \<and> process_file L C watermark upload overwrite s file =
              (None, say (SkippingContractual filename) (s\<lparr>skipped := skipped s + 1\<rparr>)))
       \<and> (map_of kvs ''other_restrictions'' = Some (JString legal_status)
          \<and> is_ascii (first_token legal_status)
          \<and> py_int (int_max_str_digits L) (first_token legal_status) = None \<longrightarrow>
            process_file L C watermark upload overwrite s file = (Some ValueError, s))
       \<and> (map_of kvs ''other_restrictions'' = Some (JString legal_status)
          \<and> py_int (int_max_str_digits L) (first_token legal_status) = Some legal \<and> legal \<le> 1
          \<and> map_of kvs ''contractual_status'' = Some (JString constractual_status)
          \<and> is_ascii (first_token constractual_status)
          \<and> py_int (int_max_str_digits L) (first_token constractual_status) = None \<longrightarrow>
            process_file L C watermark upload overwrite s file = (Some ValueError, s))
       \<and> (map_of kvs ''other_restrictions'' = Some other
          \<and> \<not> has_split other \<longrightarrow>
            process_file L C watermark upload overwrite s file = (Some AttributeError, s))
       \<and> (map_of kvs ''other_restrictions'' = Some (JString legal_status)
          \<and> py_int (int_max_str_digits L) (first_token legal_status) = Some legal \<and> legal \<le> 1
          \<and> map_of kvs ''contractual_status'' = Some other
          \<and> \<not> has_split other \<longrightarrow>
            process_file L C watermark upload overwrite s file = (Some AttributeError, s))"
proof -
  have data: "load_sam_data L file =
           Inr (case map_of kvs ''other_restrictions'' of None \<Rightarrow> JString ''4'' | Some v \<Rightarrow> v,
                case map_of kvs ''contractual_status'' of None \<Rightarrow> JString ''1'' | Some v \<Rightarrow> v,
                filename)"
    using row decoded name by (rule load_sam_data_object)
  have other: "leading_int L v = Inl AttributeError" if "\<not> has_split v" for v
    using that by (cases v) (simp_all add: leading_int_def)
  have string: "leading_int L (JString t) =
                  (case py_int (int_max_str_digits L) (first_token t) of
                     None \<Rightarrow> Inl ValueError | Some n \<Rightarrow> Inr n)" for t
    by (simp add: leading_int_def)
  show ?thesis
    using leading_int_defaults [of L]
    by (auto simp add: process_file_def convert_file_loaded [OF data] data
          check_rights_def string other)
qed

text \<open>
  The cases on rows of the example: no legal status, no contractual status, the legal
  status \<^verbatim>\<open>unknown\<close>, an empty contractual status, and the number 0 as legal
  status.
\<close>

theorem missing_status_defaults_witness:
  "process_file ex_lib ex_settings False False False (initial_run (ex_disk []) [])
     (ex_row text_no_legal) =
     (None, say (SkippingLegal (JString ''photo.jpg''))
              ((initial_run (ex_disk []) [])\<lparr>skipped := 1\<rparr>))
   \<and> process_file ex_lib ex_settings False False False (initial_run (ex_disk []) [])
     (ex_row text_no_contract) =
     (None, say (SkippingContractual (JString ''photo.jpg''))
              ((initial_run (ex_disk []) [])\<lparr>skipped := 1\<rparr>))
   \<and> process_file ex_lib ex_settings False False False (initial_run (ex_disk []) [])
     (ex_row text_unknown) = (Some ValueError, initial_run (ex_disk []) [])
   \<and> process_file ex_lib ex_settings False False False (initial_run (ex_disk []) [])
     (ex_row text_empty_contract) = (Some ValueError, initial_run (ex_disk []) [])
   \<and> process_file ex_lib ex_settings False False False (initial_run (ex_disk []) [])
     (ex_row text_number) = (Some AttributeError, initial_run (ex_disk []) [])"
proof -
  have row: "ex_row t ''oasDataJsonEncoded'' = Some t" for t
    by (simp add: ex_row_def)
  have d1: "json_loads ex_lib text_no_legal =
      Inr (JObject [(''filename'', JString ''photo.jpg''), (''contractual_status'', JString ''3'')])"
    by code_simp
  have d2: "json_loads ex_lib text_no_contract =
      Inr (JObject [(''filename'', JString ''photo.jpg''), (''other_restrictions'', JString ''1'')])"
    by code_simp
  have d3: "json_loads ex_lib text_unknown =
      Inr (JObject [(''filename'', JString ''photo.jpg''), (''other_restrictions'', JString ''unknown''),
                    (''contractual_status'', JString ''3'')])"
    by code_simp
  have d4: "json_loads ex_lib text_empty_contract =
      Inr (JObject [(''filename'', JString ''photo.jpg''), (''other_restrictions'', JString ''1''),
                    (''contractual_status'', JString [])])"
    by code_simp
  have d5: "json_loads ex_lib text_number =
      Inr (JObject [(''filename'', JString ''photo.jpg''), (''other_restrictions'', JNumber 0),
                    (''contractual_status'', JString ''3'')])"
    by code_simp
  have p1: "py_int (int_max_str_digits ex_lib) (first_token ''1'') = Some 1"
    by code_simp
  have p3: "py_int (int_max_str_digits ex_lib) (first_token ''unknown'') = None"
    by code_simp
  have p4: "py_int (int_max_str_digits ex_lib) (first_token []) = None"
    by code_simp
  have a3: "is_ascii (first_token ''unknown'')"
    by code_simp
  have a4: "is_ascii (first_token [])"
    by code_simp
  show ?thesis
    using missing_status_defaults [of "ex_row text_no_legal", OF row d1, of "JString ''photo.jpg''" ex_settings False False False
            "initial_run (ex_disk []) []"]
          missing_status_defaults [of "ex_row text_no_contract", OF row d2, of "JString ''photo.jpg''" ex_settings False
            False False "initial_run (ex_disk []) []" "''1''" 1]
          missing_status_defaults [of "ex_row text_unknown", OF row d3, of "JString ''photo.jpg''" ex_settings False False False
            "initial_run (ex_disk []) []" "''unknown''"]
          missing_status_defaults [of "ex_row text_empty_contract", OF row d4, of "JString ''photo.jpg''" ex_settings False False False
            "initial_run (ex_disk []) []" "''1''" 1 "[]"]
          missing_status_defaults [of "ex_row text_number", OF row d5, of "JString ''photo.jpg''" ex_settings False False False
            "initial_run (ex_disk []) []" "[]" 0 "[]" "JNumber 0"]
          p1 p3 p4 a3 a4
    by (simp add: initial_run_def)
qed

subsection \<open>What the generator answers\<close>

lemma jpg_sizes_error_kept:
  "jpg_sizes L C img_in quality watermark overwrite img sizes resp fs = (x, resp', fs') \<Longrightarrow>
   resp_error resp \<noteq> None \<Longrightarrow> resp_error resp' \<noteq> None"
proof (induction sizes arbitrary: resp fs)
  case Nil
  then show ?case by simp
next
  case (Cons sz sizes)
  then show ?case
    by (auto simp add: Let_def split: if_splits prod.splits option.splits)
qed

lemma jpg_sizes_path_kept:
  "jpg_sizes L C img_in quality watermark overwrite img sizes resp fs = (x, resp', fs') \<Longrightarrow>
   map_of (resp_path resp) sz \<noteq> None \<Longrightarrow> map_of (resp_path resp') sz \<noteq> None"
proof (induction sizes arbitrary: resp fs)
  case Nil
  then show ?case by simp
next
  case (Cons a sizes)
  then show ?case
    by (auto simp add: Let_def split: if_splits prod.splits option.splits)
qed

lemma jpg_sizes_all_saved:
  "jpg_sizes L C img_in quality watermark overwrite img sizes resp fs = (None, resp', fs') \<Longrightarrow>
   resp_error resp' = None \<Longrightarrow> sz \<in> set sizes \<Longrightarrow> map_of (resp_path resp') sz \<noteq> None"
proof (induction sizes arbitrary: resp fs)
  case Nil
  then show ?case by simp
next
  case (Cons a sizes)
  show ?case
  proof (cases "\<not> overwrite \<and> path_exists L fs (out_file L C img_in a)")
    case True
    with Cons.prems(1) have
      "jpg_sizes L C img_in quality watermark overwrite img sizes
         (resp\<lparr>resp_error := Some (FileAlreadyExists (out_file L C img_in a))\<rparr>) fs =
       (None, resp', fs')"
      by (simp add: Let_def)
    from jpg_sizes_error_kept [OF this] Cons.prems(2) show ?thesis
      by simp
  next
    case False
    obtain r fs1 where saved:
      "img_save L fs (sized_copy L C watermark img a) (out_file L C img_in a) quality = (r, fs1)"
      by (cases "img_save L fs (sized_copy L C watermark img a) (out_file L C img_in a) quality")
    show ?thesis
    proof (cases r)
      case None
      with False saved Cons.prems(1) have rest:
        "jpg_sizes L C img_in quality watermark overwrite img sizes
           (resp\<lparr>resp_path := (a, out_file L C img_in a) # resp_path resp\<rparr>) fs1 =
         (None, resp', fs')"
        by (auto simp add: Let_def)
      show ?thesis
      proof (cases "sz = a")
        case True
        with jpg_sizes_path_kept [OF rest, of a] show ?thesis
          by simp
      next
        case False
        with Cons.prems(3) have "sz \<in> set sizes"
          by simp
        with Cons.IH [OF rest Cons.prems(2)] show ?thesis .
      qed
    next
      case (Some e)
      show ?thesis
      proof (cases "img_filename L (sized_copy L C watermark img a)")
        case None
        with False saved Some Cons.prems(1) show ?thesis
          by (auto simp add: Let_def)
      next
        case (Some name)
        with False saved \<open>r = Some e\<close> Cons.prems(1) have
          "jpg_sizes L C img_in quality watermark overwrite img sizes
             (resp\<lparr>resp_error := Some (ErrorSaving name e)\<rparr>) fs1 = (None, resp', fs')"
          by (auto simp add: Let_def)
        from jpg_sizes_error_kept [OF this] Cons.prems(2) show ?thesis
          by simp
      qed
    qed
  qed
qed

lemma generate_jpgs_all_saved:
  assumes "generate_jpgs L C fs img_in quality sizes watermark overwrite = (None, resp, fs')"
      and "resp_error resp = None" and "sz \<in> set sizes"
  shows "map_of (resp_path resp) sz \<noteq> None"
proof (cases "Image_open L fs img_in")
  case (Inl e)
  with assms(1,2) show ?thesis
    by (auto simp add: generate_jpgs_def split: if_splits)
next
  case (Inr img0)
  show ?thesis
  proof (cases "img_load L img0")
    case (Inl e)
    with Inr assms(1) show ?thesis
      by (simp add: generate_jpgs_def)
  next
    case loaded: (Inr img)
    with Inr assms(1) have
      "jpg_sizes L C img_in quality watermark overwrite (fix_rotation L img) sizes resp_empty fs =
       (None, resp, fs')"
      by (simp add: generate_jpgs_def)
    from jpg_sizes_all_saved [OF this assms(2,3)] show ?thesis .
  qed
qed

subsection \<open>Where a record stands after line 237\<close>

lemma call_generate_jpgs_Finished:
  "call_generate_jpgs L C watermark s filename filepath filesizes rtype \<noteq> Finished s'"
  by (simp add: call_generate_jpgs_def split: prod.splits option.splits)

lemma call_generate_jpgs_Raised:
  "call_generate_jpgs L C watermark s filename filepath filesizes rtype = Raised e s' \<Longrightarrow>
   s' = s\<lparr>local_fs := local_fs s'\<rparr>"
  by (auto simp add: call_generate_jpgs_def split: prod.splits option.splits)

lemma call_generate_jpgs_Generated:
  assumes "call_generate_jpgs L C watermark s filename filepath filesizes rtype =
             Generated s' filename' filepath' rtype' resp"
  shows "s' = s\<lparr>local_fs := local_fs s'\<rparr> \<and> filename' = filename \<and> rtype' = rtype
       \<and> (resp_error resp = None \<longrightarrow> (\<forall>sz \<in> set filesizes. map_of (resp_path resp) sz \<noteq> None))"
proof -
  obtain x r fs' where g:
    "generate_jpgs L C (local_fs s) filepath 80 filesizes watermark False = (x, r, fs')"
    by (cases "generate_jpgs L C (local_fs s) filepath 80 filesizes watermark False")
  with assms have "x = None" "r = resp" "s' = s\<lparr>local_fs := fs'\<rparr>"
      "filename' = filename" "rtype' = rtype"
    by (auto simp add: call_generate_jpgs_def split: option.splits)
  with g generate_jpgs_all_saved [of L C "local_fs s" filepath 80 filesizes watermark False resp fs']
  show ?thesis
    by auto
qed

lemma determine_fileformat_Generated:
  assumes "determine_fileformat L C watermark s filename filepath =
             Generated s' filename' filepath' rtype resp"
  shows "s' = s\<lparr>local_fs := local_fs s'\<rparr> \<and> filename' = filename
       \<and> (resp_error resp = None \<longrightarrow>
            map_of (resp_path resp) (SAM_ACCESS_SMALL_SIZE C) \<noteq> None
          \<and> map_of (resp_path resp) (SAM_ACCESS_MEDIUM_SIZE C) \<noteq> None)"
proof (cases "path_suffix L filepath \<in> set (SAM_IMAGE_FORMATS C)")
  case True
  with assms have "call_generate_jpgs L C watermark s filename filepath
      [SAM_ACCESS_LARGE_SIZE C, SAM_ACCESS_MEDIUM_SIZE C, SAM_ACCESS_SMALL_SIZE C] ''image'' =
      Generated s' filename' filepath' rtype resp"
    by (simp add: determine_fileformat_def)
  from call_generate_jpgs_Generated [OF this] show ?thesis
    by simp
next
  case False
  show ?thesis
  proof (cases "path_suffix L filepath = ''.pdf''")
    case True
    obtain r fs' where cover:
      "convert_pdf_cover_to_image L (local_fs s) filepath ''./images/temp'' = (r, fs')"
      by (cases "convert_pdf_cover_to_image L (local_fs s) filepath ''./images/temp''")
    show ?thesis
    proof (cases r)
      case (Inl e)
      with assms False True cover show ?thesis
        by (simp add: determine_fileformat_def)
    next
      case (Inr png)
      with assms False True cover have
        "call_generate_jpgs L C watermark (s\<lparr>local_fs := fs'\<rparr>) filename png
           [SAM_ACCESS_MEDIUM_SIZE C, SAM_ACCESS_SMALL_SIZE C] ''web_document'' =
         Generated s' filename' filepath' rtype resp"
        by (simp add: determine_fileformat_def)
      from call_generate_jpgs_Generated [OF this] show ?thesis
        by simp
    qed
  next
    case no_pdf: False
    with assms False show ?thesis
      by (simp add: determine_fileformat_def)
  qed
qed

lemma determine_fileformat_Raised:
  assumes "determine_fileformat L C watermark s filename filepath = Raised e s'"
  shows "s' = s\<lparr>local_fs := local_fs s'\<rparr>"
  using assms call_generate_jpgs_Raised [of L C watermark s filename filepath _ _ e s']
    call_generate_jpgs_Raised [of L C watermark "s\<lparr>local_fs := fs'\<rparr>" filename _ _ _ e s' for fs']
  by (auto simp add: determine_fileformat_def split: if_splits prod.splits sum.splits)

lemma determine_fileformat_Finished:
  assumes "determine_fileformat L C watermark s filename filepath = Finished s'"
  shows "s' = say (UnknownFileformat (path_name L filepath)) (s\<lparr>skipped := skipped s + 1\<rparr>)"
  using assms
  by (auto simp add: determine_fileformat_def call_generate_jpgs_Finished
        split: if_splits prod.splits sum.splits)

lemma check_filepath_Generated:
  assumes "check_filepath L C watermark s filename = Generated s' filename' filepath rtype resp"
  shows "s' = s\<lparr>local_fs := local_fs s'\<rparr> \<and> filename' = filename
       \<and> (resp_error resp = None \<longrightarrow>
            map_of (resp_path resp) (SAM_ACCESS_SMALL_SIZE C) \<noteq> None
          \<and> map_of (resp_path resp) (SAM_ACCESS_MEDIUM_SIZE C) \<noteq> None)"
  using assms determine_fileformat_Generated [of L C watermark s filename _ s' filename' filepath rtype resp]
  by (auto simp add: check_filepath_def Let_def split: json.splits if_splits)

lemma check_filepath_Raised:
  assumes "check_filepath L C watermark s filename = Raised e s'"
  shows "s' = s\<lparr>local_fs := local_fs s'\<rparr>"
  using assms determine_fileformat_Raised [of L C watermark s filename _ e s']
  by (auto simp add: check_filepath_def Let_def split: json.splits if_splits)

lemma check_filepath_Finished:
  assumes "check_filepath L C watermark s filename = Finished s'"
  shows "\<exists>m. s' = say m (s\<lparr>skipped := skipped s + 1\<rparr>) \<or> s' = say m (s\<lparr>failed := failed s + 1\<rparr>)"
  using assms determine_fileformat_Finished [of L C watermark s filename _ s']
  by (auto simp add: check_filepath_def Let_def split: json.splits if_splits)

lemma convert_file_Generated:
  assumes "convert_file L C watermark s file = Generated s' filename filepath rtype resp"
  shows "s' = s\<lparr>local_fs := local_fs s'\<rparr>
       \<and> (resp_error resp = None \<longrightarrow>
            map_of (resp_path resp) (SAM_ACCESS_SMALL_SIZE C) \<noteq> None
          \<and> map_of (resp_path resp) (SAM_ACCESS_MEDIUM_SIZE C) \<noteq> None)"
  using assms check_filepath_Generated [of L C watermark s _ s' filename filepath rtype resp]
  by (auto simp add: convert_file_def split: sum.splits prod.splits rights.splits)

lemma convert_file_Raised:
  assumes "convert_file L C watermark s file = Raised e s'"
  shows "s' = s\<lparr>local_fs := local_fs s'\<rparr>"
  using assms check_filepath_Raised [of L C watermark s _ e s']
  by (auto simp add: convert_file_def split: sum.splits prod.splits rights.splits)

lemma convert_file_Finished:
  assumes "convert_file L C watermark s file = Finished s'"
  shows "\<exists>m. s' = say m (s\<lparr>skipped := skipped s + 1\<rparr>) \<or> s' = say m (s\<lparr>failed := failed s + 1\<rparr>)"
  using assms check_filepath_Finished [of L C watermark s _ s']
  by (auto simp add: convert_file_def split: sum.splits prod.splits rights.splits)

subsection \<open>Lines 239 to 284\<close>

lemma store_result_error:
  "resp_error convert_resp = Some err \<Longrightarrow>
   store_result L C upload overwrite s filename filepath rtype convert_resp =
     (None, say (ConvertFailed err) (s\<lparr>failed := failed s + 1\<rparr>))"
  by (simp add: store_result_def)

lemma upload_paths_Inr:
  "map_of (resp_path convert_resp) (SAM_ACCESS_SMALL_SIZE C) \<noteq> None \<Longrightarrow>
   map_of (resp_path convert_resp) (SAM_ACCESS_MEDIUM_SIZE C) \<noteq> None \<Longrightarrow>
   \<exists>filepaths. upload_paths C convert_resp = Inr filepaths"
  by (auto simp add: upload_paths_def)

lemma store_result_upload_fails:
  assumes "resp_error convert_resp = None" and "upload"
      and "upload_fails L C overwrite s convert_resp"
  shows "\<exists>m r'. store_result L C upload overwrite s filename filepath rtype convert_resp =
           (None, say m (say (SuccessfullyConverted filename)
                    (s\<lparr>converted := converted s + 1, remote := r', failed := failed s + 1\<rparr>)))"
  using assms
  by (auto simp add: store_result_def upload_fails_def say_def Let_def
        split: sum.splits prod.splits)

lemma store_result_tally:
  assumes "resp_error convert_resp = None"
      and "map_of (resp_path convert_resp) (SAM_ACCESS_SMALL_SIZE C) \<noteq> None"
      and "map_of (resp_path convert_resp) (SAM_ACCESS_MEDIUM_SIZE C) \<noteq> None"
      and "store_result L C upload overwrite s filename filepath rtype convert_resp = (x, s')"
  shows "x = None \<and> local_fs s' = local_fs s \<and> converted s' = converted s + 1
       \<and> skipped s' = skipped s
       \<and> (if \<not> upload then
             failed s' = failed s \<and> uploaded s' = uploaded s \<and> remote s' = remote s
             \<and> length (outputs s') = length (outputs s) + 1
           else if upload_fails L C overwrite s convert_resp then
             failed s' = failed s + 1 \<and> uploaded s' = uploaded s \<and> outputs s' = outputs s
           else
             failed s' = failed s \<and> uploaded s' = uploaded s + 1
             \<and> length (outputs s') = length (outputs s) + 1)"
proof -
  from upload_paths_Inr [OF assms(2,3)] obtain filepaths where
    paths: "upload_paths C convert_resp = Inr filepaths" ..
  obtain res r' where up:
    "upload_files L (local_fs s) (remote s) filepaths overwrite = (res, r')"
    by (cases "upload_files L (local_fs s) (remote s) filepaths overwrite")
  from assms(1,4) paths up show ?thesis
    by (cases res) (auto simp add: store_result_def upload_fails_def say_def Let_def)
qed

subsection \<open>Which errors the loop survives\<close>

lemma process_file_Generated:
  assumes gen: "convert_file L C watermark s file = Generated s1 filename filepath rtype resp"
  shows "\<exists>s'. process_file L C watermark upload overwrite s file = (None, s')
            \<and> converted s' = converted s + (if resp_error resp = None then 1 else 0)
            \<and> skipped s' = skipped s
            \<and> (if resp_error resp \<noteq> None then
                  failed s' = failed s + 1 \<and> uploaded s' = uploaded s \<and> outputs s' = outputs s
                else if \<not> upload then
                  failed s' = failed s \<and> uploaded s' = uploaded s
                  \<and> length (outputs s') = length (outputs s) + 1
                else if upload_fails L C overwrite s1 resp then
                  failed s' = failed s + 1 \<and> uploaded s' = uploaded s \<and> outputs s' = outputs s
                else
                  failed s' = failed s \<and> uploaded s' = uploaded s + 1
                  \<and> length (outputs s') = length (outputs s) + 1)"
proof -
  from convert_file_Generated [OF gen] have
    s1: "s1 = s\<lparr>local_fs := local_fs s1\<rparr>" and
    paths: "resp_error resp = None \<longrightarrow>
              map_of (resp_path resp) (SAM_ACCESS_SMALL_SIZE C) \<noteq> None
            \<and> map_of (resp_path resp) (SAM_ACCESS_MEDIUM_SIZE C) \<noteq> None"
    by simp_all
  have same: "converted s1 = converted s" "skipped s1 = skipped s" "failed s1 = failed s"
      "uploaded s1 = uploaded s" "outputs s1 = outputs s"
    by (subst s1, simp)+
  show ?thesis
  proof (cases "resp_error resp")
    case (Some err)
    with gen same show ?thesis
      by (simp add: process_file_def store_result_error say_def)
  next
    case None
    obtain x s' where st:
      "store_result L C upload overwrite s1 filename filepath rtype resp = (x, s')"
      by (cases "store_result L C upload overwrite s1 filename filepath rtype resp")
    from store_result_tally [OF None _ _ st] paths None same gen st show ?thesis
      by (auto simp add: process_file_def)
  qed
qed




subsection \<open>The tally\<close>

text \<open>
  Claim C6, as stated, fails on a record that is converted and uploaded: the one row
  raises two counters, \<open>converted\<close> and \<open>uploaded\<close>.
\<close>

theorem two_counters_counterexample:
  "fst (process_file ex_lib ex_settings False True False (initial_run (ex_disk []) [])
          (ex_row text_photo)) = None
   \<and> converted (snd (process_file ex_lib ex_settings False True False
          (initial_run (ex_disk []) []) (ex_row text_photo))) = 1
   \<and> uploaded (snd (process_file ex_lib ex_settings False True False
          (initial_run (ex_disk []) []) (ex_row text_photo))) = 1"
  by code_simp

text \<open>
  Claim C6, amended. A row that is processed without an exception raises exactly one of
  \<open>converted\<close>, \<open>skipped\<close> and \<open>failed\<close> by one when no upload is requested. With
  an upload, a converted record raises \<open>converted\<close> and then one more counter:
  \<open>uploaded\<close> when the upload succeeds (\<^verbatim>\<open>upload_files\<close> returns at least three
  urls), \<open>failed\<close> when it fails (it raises, or returns fewer than three). No counter
  ever goes down. A record whose upload fails raises \<open>failed\<close>, appends nothing to
  the output, and the loop goes on with the next row; a record whose upload succeeds
  raises \<open>uploaded\<close> and appends one output record.
\<close>

theorem tally_per_row:
  assumes ok: "process_file L C watermark upload overwrite s file = (None, s')"
  shows "((converted s' = converted s \<and> skipped s' = skipped s + 1 \<and> failed s' = failed s
            \<and> uploaded s' = uploaded s \<and> outputs s' = outputs s)
        \<or> (converted s' = converted s \<and> skipped s' = skipped s \<and> failed s' = failed s + 1
            \<and> uploaded s' = uploaded s \<and> outputs s' = outputs s)
        \<or> (converted s' = converted s + 1 \<and> skipped s' = skipped s \<and> failed s' = failed s
            \<and> uploaded s' = uploaded s \<and> length (outputs s') = length (outputs s) + 1
            \<and> \<not> upload)
        \<or> (converted s' = converted s + 1 \<and> skipped s' = skipped s \<and> failed s' = failed s
            \<and> uploaded s' = uploaded s + 1 \<and> length (outputs s') = length (outputs s) + 1
            \<and> upload)
        \<or> (converted s' = converted s + 1 \<and> skipped s' = skipped s \<and> failed s' = failed s + 1
            \<and> uploaded s' = uploaded s \<and> outputs s' = outputs s \<and> upload))
       \<and> (\<forall>s1 filename filepath rtype resp.
             convert_file L C watermark s file = Generated s1 filename filepath rtype resp
             \<and> resp_error resp = None \<and> upload \<and> upload_fails L C overwrite s1 resp \<longrightarrow>
               failed s' = failed s + 1 \<and> outputs s' = outputs s
             \<and> files_loop L C watermark upload overwrite s (file # rest) =
                 files_loop L C watermark upload overwrite s' rest)
       \<and> (\<forall>s1 filename filepath rtype resp.
             convert_file L C watermark s file = Generated s1 filename filepath rtype resp
             \<and> resp_error resp = None \<and> upload \<and> \<not> upload_fails L C overwrite s1 resp \<longrightarrow>
               uploaded s' = uploaded s + 1 \<and> failed s' = failed s
             \<and> length (outputs s') = length (outputs s) + 1)"
proof (intro conjI allI impI)
  show "(converted s' = converted s \<and> skipped s' = skipped s + 1 \<and> failed s' = failed s
            \<and> uploaded s' = uploaded s \<and> outputs s' = outputs s)
        \<or> (converted s' = converted s \<and> skipped s' = skipped s \<and> failed s' = failed s + 1
            \<and> uploaded s' = uploaded s \<and> outputs s' = outputs s)
        \<or> (converted s' = converted s + 1 \<and> skipped s' = skipped s \<and> failed s' = failed s
            \<and> uploaded s' = uploaded s \<and> length (outputs s') = length (outputs s) + 1
            \<and> \<not> upload)
        \<or> (converted s' = converted s + 1 \<and> skipped s' = skipped s \<and> failed s' = failed s
            \<and> uploaded s' = uploaded s + 1 \<and> length (outputs s') = length (outputs s) + 1
            \<and> upload)
        \<or> (converted s' = converted s + 1 \<and> skipped s' = skipped s \<and> failed s' = failed s + 1
            \<and> uploaded s' = uploaded s \<and> outputs s' = outputs s \<and> upload)"
  proof (cases "convert_file L C watermark s file")
    case (Raised e s1)
    with ok show ?thesis
      by (simp add: process_file_def)
  next
    case (Finished s1)
    with ok have "s' = s1"
      by (simp add: process_file_def)
    with convert_file_Finished [OF Finished] obtain m where
      "s' = say m (s\<lparr>skipped := skipped s + 1\<rparr>) \<or> s' = say m (s\<lparr>failed := failed s + 1\<rparr>)"
      by blast
    then show ?thesis
    proof
      assume "s' = say m (s\<lparr>skipped := skipped s + 1\<rparr>)"
      then show ?thesis
        by (simp add: say_def)
    next
      assume "s' = say m (s\<lparr>failed := failed s + 1\<rparr>)"
      then show ?thesis
        by (simp add: say_def)
    qed
  next
    case (Generated s1 filename filepath rtype resp)
    from process_file_Generated [OF Generated, of upload overwrite] ok have t:
      "converted s' = converted s + (if resp_error resp = None then 1 else 0)
       \<and> skipped s' = skipped s
       \<and> (if resp_error resp \<noteq> None then
             failed s' = failed s + 1 \<and> uploaded s' = uploaded s \<and> outputs s' = outputs s
           else if \<not> upload then
             failed s' = failed s \<and> uploaded s' = uploaded s
             \<and> length (outputs s') = length (outputs s) + 1
           else if upload_fails L C overwrite s1 resp then
             failed s' = failed s + 1 \<and> uploaded s' = uploaded s \<and> outputs s' = outputs s
           else
             failed s' = failed s \<and> uploaded s' = uploaded s + 1
             \<and> length (outputs s') = length (outputs s) + 1)"
      by simp
    show ?thesis
    proof (cases "resp_error resp = None")
      case False
      with t show ?thesis by simp
    next
      case True
      show ?thesis
      proof (cases upload)
        case False
        with t True show ?thesis by simp
      next
        case up: True
        with t True show ?thesis
          by (cases "upload_fails L C overwrite s1 resp") simp_all
      qed
    qed
  qed
next
  fix s1 filename filepath rtype resp
  assume a: "convert_file L C watermark s file = Generated s1 filename filepath rtype resp
             \<and> resp_error resp = None \<and> upload \<and> upload_fails L C overwrite s1 resp"
  then have gen: "convert_file L C watermark s file = Generated s1 filename filepath rtype resp"
    by simp
  from process_file_Generated [OF gen, of upload overwrite] ok a
  show "failed s' = failed s + 1" and "outputs s' = outputs s"
    by simp_all
  from ok show "files_loop L C watermark upload overwrite s (file # rest) =
                 files_loop L C watermark upload overwrite s' rest"
    by simp
next
  fix s1 filename filepath rtype resp
  assume a: "convert_file L C watermark s file = Generated s1 filename filepath rtype resp
             \<and> resp_error resp = None \<and> upload \<and> \<not> upload_fails L C overwrite s1 resp"
  then have gen: "convert_file L C watermark s file = Generated s1 filename filepath rtype resp"
    by simp
  from process_file_Generated [OF gen, of upload overwrite] ok a
  show "uploaded s' = uploaded s + 1" and "failed s' = failed s"
    and "length (outputs s') = length (outputs s) + 1"
    by simp_all
qed

text \<open>
  On the example, with an upload and without overwrite: the remote store has taken the
  small file of the photo before, so the upload fails; on an empty remote store it
  succeeds.
\<close>

theorem tally_per_row_witness:
  "process_file ex_lib ex_settings False True False
     (initial_run (ex_disk []) [''access/small/photo.jpg'']) (ex_row text_photo) =
     (None, snd (process_file ex_lib ex_settings False True False
        (initial_run (ex_disk []) [''access/small/photo.jpg'']) (ex_row text_photo)))
   \<and> converted (snd (process_file ex_lib ex_settings False True False
        (initial_run (ex_disk []) [''access/small/photo.jpg'']) (ex_row text_photo))) = 1
   \<and> skipped (snd (process_file ex_lib ex_settings False True False
        (initial_run (ex_disk []) [''access/small/photo.jpg'']) (ex_row text_photo))) = 0
   \<and> failed (snd (process_file ex_lib ex_settings False True False
        (initial_run (ex_disk []) [''access/small/photo.jpg'']) (ex_row text_photo))) = 1
   \<and> uploaded (snd (process_file ex_lib ex_settings False True False
        (initial_run (ex_disk []) [''access/small/photo.jpg'']) (ex_row text_photo))) = 0
   \<and> outputs (snd (process_file ex_lib ex_settings False True False
        (initial_run (ex_disk []) [''access/small/photo.jpg'']) (ex_row text_photo))) = []
   \<and> uploaded (snd (process_file ex_lib ex_settings False True False
        (initial_run (ex_disk []) []) (ex_row text_photo))) = 1
   \<and> failed (snd (process_file ex_lib ex_settings False True False
        (initial_run (ex_disk []) []) (ex_row text_photo))) = 0
   \<and> length (outputs (snd (process_file ex_lib ex_settings False True False
        (initial_run (ex_disk []) []) (ex_row text_photo)))) = 1"
proof -
  let ?s = "initial_run (ex_disk []) [''access/small/photo.jpg'']"
  let ?e = "initial_run (ex_disk []) []"
  let ?e' = "snd (process_file ex_lib ex_settings False True False ?e (ex_row text_photo))"
  let ?h = "convert_file ex_lib ex_settings False ?e (ex_row text_photo)"
  let ?s' = "snd (process_file ex_lib ex_settings False True False ?s (ex_row text_photo))"
  let ?g = "convert_file ex_lib ex_settings False ?s (ex_row text_photo)"
  have ok: "process_file ex_lib ex_settings False True False ?s (ex_row text_photo) = (None, ?s')"
    by code_simp
  have gen: "?g = Generated (gen_run ?g) (gen_filename ?g) (gen_filepath ?g) (gen_rtype ?g)
      (gen_resp ?g)"
    by code_simp
  have no_error: "resp_error (gen_resp ?g) = None"
    by code_simp
  have fails: "upload_fails ex_lib ex_settings False (gen_run ?g) (gen_resp ?g)"
    by code_simp
  have start: "converted ?s = 0" "skipped ?s = 0" "failed ?s = 0" "uploaded ?s = 0"
      "outputs ?s = []"
    by (simp_all add: initial_run_def)
  note t = tally_per_row [OF ok, of "[]"]
  from t [THEN conjunct2, THEN conjunct1, rule_format,
      OF conjI [OF gen conjI [OF no_error conjI [OF TrueI fails]]]]
  have f: "failed ?s' = 1" "outputs ?s' = []"
    using start by simp_all
  have c: "converted ?s' = 1"
    by code_simp
  from t [THEN conjunct1] f c start have k: "skipped ?s' = 0 \<and> uploaded ?s' = 0"
    by simp
  have ok_e: "process_file ex_lib ex_settings False True False ?e (ex_row text_photo) = (None, ?e')"
    by code_simp
  have gen_e: "?h = Generated (gen_run ?h) (gen_filename ?h) (gen_filepath ?h) (gen_rtype ?h)
      (gen_resp ?h)"
    by code_simp
  have no_error_e: "resp_error (gen_resp ?h) = None"
    by code_simp
  have succeeds: "\<not> upload_fails ex_lib ex_settings False (gen_run ?h) (gen_resp ?h)"
    by code_simp
  have start_e: "failed ?e = 0" "uploaded ?e = 0" "outputs ?e = []"
    by (simp_all add: initial_run_def)
  from tally_per_row [OF ok_e, of "[]", THEN conjunct2, THEN conjunct2, rule_format,
      OF conjI [OF gen_e conjI [OF no_error_e conjI [OF TrueI succeeds]]]]
  have u: "uploaded ?e' = 1" "failed ?e' = 0" "length (outputs ?e') = 1"
    using start_e by simp_all
  from ok f c k u show ?thesis
    by simp
qed

subsection \<open>The PDF cover\<close>

text \<open>
  Claim C4, as stated, fails twice. On a disk without the directory for the covers,
  writing the PNG of \<^verbatim>\<open>report.pdf\<close> fails: the PDFConvertError leaves the function,
  nothing is tallied and the photo in the next row is never processed. And when the page
  cannot be rendered (\<^verbatim>\<open>torn.pdf\<close>), the error of the renderer comes out as it is,
  not as a PDFConvertError.
\<close>

theorem cover_failure_counterexample:
  "generate_sam_access_files ex_lib ex_settings (ex_disk_no_temp [text_report, text_photo]) []
     ''in.csv'' ''out.csv'' False False False =
     (Some (PDFConvertError OSError),
      say CsvLoaded (initial_run (ex_disk_no_temp [text_report, text_photo]) []))
   \<and> convert_pdf_cover_to_image ex_lib (ex_disk []) ''master/torn.pdf'' ''./images/temp'' =
       (Inl RuntimeError, ex_disk [])"
  by code_simp

text \<open>
  Claim C4, amended. When the first page has been rendered and writing the PNG fails,
  cover extraction raises PDFConvertError with the underlying error as its argument. The
  pipeline does not catch it: the exception leaves the loop at this record, and the
  records after it are not processed.
\<close>

theorem cover_write_failure:
  assumes data: "load_sam_data L file = Inr (legal_status, constractual_status, JString name)"
      and rights: "check_rights L legal_status constractual_status = Inr Proceed"
      and found: "path_exists L (local_fs s) (Path2 L (SAM_MASTER_PATH C) name)"
      and regular: "path_is_file L (local_fs s) (Path2 L (SAM_MASTER_PATH C) name)"
      and no_image: "path_suffix L (Path2 L (SAM_MASTER_PATH C) name) \<notin> set (SAM_IMAGE_FORMATS C)"
      and pdf: "path_suffix L (Path2 L (SAM_MASTER_PATH C) name) = ''.pdf''"
      and rendered: "fitz_pixmap L (local_fs s) (Path2 L (SAM_MASTER_PATH C) name) = Inr pix"
      and unwritten: "writePNG L (local_fs s) pix
                    (Path2 L ''./images/temp'' (path_stem L (Path2 L (SAM_MASTER_PATH C) name))
                      @ ''.png'') = (Some e, fs')"
  shows "convert_pdf_cover_to_image L (local_fs s) (Path2 L (SAM_MASTER_PATH C) name)
           ''./images/temp'' = (Inl (PDFConvertError e), fs')
       \<and> process_file L C watermark upload overwrite s file =
           (Some (PDFConvertError e), s\<lparr>local_fs := fs'\<rparr>)
       \<and> files_loop L C watermark upload overwrite s (file # rest) =
           (Some (PDFConvertError e), s\<lparr>local_fs := fs'\<rparr>)"
proof -
  have cover: "convert_pdf_cover_to_image L (local_fs s) (Path2 L (SAM_MASTER_PATH C) name)
           ''./images/temp'' = (Inl (PDFConvertError e), fs')"
    using rendered unwritten by (simp add: convert_pdf_cover_to_image_def)
  have "determine_fileformat L C watermark s (JString name) (Path2 L (SAM_MASTER_PATH C) name) =
          Raised (PDFConvertError e) (s\<lparr>local_fs := fs'\<rparr>)"
    using no_image pdf cover by (simp add: determine_fileformat_def)
  then have "check_filepath L C watermark s (JString name) =
          Raised (PDFConvertError e) (s\<lparr>local_fs := fs'\<rparr>)"
    using found regular by (simp add: check_filepath_def)
  then have "convert_file L C watermark s file =
          Raised (PDFConvertError e) (s\<lparr>local_fs := fs'\<rparr>)"
    using rights by (simp add: convert_file_loaded [OF data])
  then have "process_file L C watermark upload overwrite s file =
           (Some (PDFConvertError e), s\<lparr>local_fs := fs'\<rparr>)"
    by (simp add: process_file_def)
  with cover show ?thesis
    by simp
qed

text \<open>On the example: \<^verbatim>\<open>report.pdf\<close> on the disk without the directory for the covers.\<close>

theorem cover_write_failure_witness:
  "convert_pdf_cover_to_image ex_lib (ex_disk_no_temp []) ''master/report.pdf''
     ''./images/temp'' = (Inl (PDFConvertError OSError), ex_disk_no_temp [])
   \<and> files_loop ex_lib ex_settings False False False (initial_run (ex_disk_no_temp []) [])
       [ex_row text_report, ex_row text_photo] =
       (Some (PDFConvertError OSError), initial_run (ex_disk_no_temp []) [])"
proof -
  let ?s = "initial_run (ex_disk_no_temp []) []"
  let ?pdf = "Path2 ex_lib (SAM_MASTER_PATH ex_settings) ''report.pdf''"
  have data: "load_sam_data ex_lib (ex_row text_report) =
      Inr (JString ''1;7'', JString ''4'', JString ''report.pdf'')"
    by code_simp
  have rights: "check_rights ex_lib (JString ''1;7'') (JString ''4'') = Inr Proceed"
    by code_simp
  have found: "path_exists ex_lib (local_fs ?s) ?pdf"
    by code_simp
  have regular: "path_is_file ex_lib (local_fs ?s) ?pdf"
    by code_simp
  have no_image: "path_suffix ex_lib ?pdf \<notin> set (SAM_IMAGE_FORMATS ex_settings)"
    by code_simp
  have pdf: "path_suffix ex_lib ?pdf = ''.pdf''"
    by code_simp
  have rendered: "fitz_pixmap ex_lib (local_fs ?s) ?pdf = Inr ex_page"
    by code_simp
  have unwritten: "writePNG ex_lib (local_fs ?s) ex_page
      (Path2 ex_lib ''./images/temp'' (path_stem ex_lib ?pdf) @ ''.png'') =
      (Some OSError, ex_disk_no_temp [])"
    by code_simp
  have name: "?pdf = ''master/report.pdf''"
    by code_simp
  have same: "?s\<lparr>local_fs := ex_disk_no_temp []\<rparr> = ?s" "local_fs ?s = ex_disk_no_temp []"
    by (simp_all add: initial_run_def)
  from cover_write_failure [OF data rights found regular no_image pdf rendered unwritten,
      of False False False "[ex_row text_photo]"]
  show ?thesis
    unfolding name same by simp
qed

subsection \<open>Uploaded records\<close>

lemma two_urls_never_emitted:
  assumes "resp_error convert_resp = None"
      and "map_of (resp_path convert_resp) (SAM_ACCESS_SMALL_SIZE C) = Some small"
      and "map_of (resp_path convert_resp) (SAM_ACCESS_MEDIUM_SIZE C) = Some medium"
      and "map_of (resp_path convert_resp) (SAM_ACCESS_LARGE_SIZE C) = None"
      and "upload_files L (local_fs s) (remote s) [small, medium] overwrite = (Inr urls, r')"
      and "length urls = 2"
  shows "store_result L C True overwrite s filename filepath rtype convert_resp =
           (None, say (FailedToUpload filename IndexError)
                    ((say (SuccessfullyConverted filename) (s\<lparr>converted := converted s + 1\<rparr>))
                       \<lparr>remote := r', failed := failed s + 1\<rparr>))"
  using assms by (simp add: store_result_def upload_paths_def say_def)

text \<open>
  Claim C5 on a PDF record. The generator writes the medium and the small file, the two
  paths are uploaded and the remote store returns their two urls; \<^verbatim>\<open>urls[2]\<close> then
  raises IndexError inside the \<^verbatim>\<open>try\<close>, so the record is counted as failed and no
  output record is written, although the files have been uploaded. Without the upload the
  same record is written with an empty \<^verbatim>\<open>large_image\<close>.
\<close>

theorem pdf_upload_not_emitted:
  "fst (generate_sam_access_files ex_lib ex_settings (ex_disk [text_report]) []
          ''in.csv'' ''out.csv'' False True False) = None
   \<and> outputs (snd (generate_sam_access_files ex_lib ex_settings (ex_disk [text_report]) []
          ''in.csv'' ''out.csv'' False True False)) = []
   \<and> printed (snd (generate_sam_access_files ex_lib ex_settings (ex_disk [text_report]) []
          ''in.csv'' ''out.csv'' False True False)) =
       [CsvLoaded, SuccessfullyConverted (JString ''report.pdf''),
        FailedToUpload (JString ''report.pdf'') IndexError, Done, Summary 1 0 1 0]
   \<and> remote (snd (generate_sam_access_files ex_lib ex_settings (ex_disk [text_report]) []
          ''in.csv'' ''out.csv'' False True False)) =
       [''access/small/report.jpg'', ''access/medium/report.jpg'']
   \<and> outputs (snd (generate_sam_access_files ex_lib ex_settings (ex_disk [text_report]) []
          ''in.csv'' ''out.csv'' False False False)) =
       [\<lparr>oasid = ''report'', thumbnail = Some ''access/small/report.jpg'',
         record_image = Some ''access/medium/report.jpg'', record_type = ''web_document'',
         large_image = [], web_document_url = ''web_url''\<rparr>]"
  by code_simp

subsection \<open>Rotation\<close>

lemma sized_copy_rotate:
  "sized_copy (L\<lparr>img_rotate := turn\<rparr>) C watermark img sz = sized_copy L C watermark img sz"
  by (simp add: sized_copy_def Let_def)

lemma jpg_sizes_rotate:
  "jpg_sizes (L\<lparr>img_rotate := turn\<rparr>) C img_in quality watermark overwrite img sizes resp fs =
   jpg_sizes L C img_in quality watermark overwrite img sizes resp fs"
  by (induction sizes arbitrary: resp fs overwrite)
    (simp_all add: sized_copy_rotate out_file_def Let_def
       cong: if_cong prod.case_cong option.case_cong)

text \<open>
  Claim C7, as stated, fails on an image that carries an orientation tag and whose class
  has no \<^verbatim>\<open>_getexif\<close>: the scan of the example has orientation 3 under the tag 274,
  and it is saved unrotated.
\<close>

theorem orientation_without_getexif_counterexample:
  "\<not> hasattr_getexif ex_lib ex_scan
   \<and> orientation_key (ExifTags_TAGS ex_lib) = Some 274
   \<and> getexif ex_lib ex_scan = Some (map_of (pic_exif ex_scan))
   \<and> map_of (pic_exif ex_scan) 274 = Some 3
   \<and> fix_rotation ex_lib ex_scan = ex_scan
   \<and> map_of (local_fs (snd (process_file ex_lib ex_settings False False False
           (initial_run (ex_disk []) []) (ex_row text_scan)))) ''access/large/scan.jpg'' =
       Some (Picture (ex_scan\<lparr>pic_mode := ''RGB''\<rparr>))
   \<and> pic_turned (ex_scan\<lparr>pic_mode := ''RGB''\<rparr>) = 0"
proof -
  have "getexif ex_lib ex_scan = Some (map_of (pic_exif ex_scan))"
    by (simp add: ex_lib_def)
  moreover have "\<not> hasattr_getexif ex_lib ex_scan
   \<and> orientation_key (ExifTags_TAGS ex_lib) = Some 274
   \<and> map_of (pic_exif ex_scan) 274 = Some 3
   \<and> fix_rotation ex_lib ex_scan = ex_scan
   \<and> map_of (local_fs (snd (process_file ex_lib ex_settings False False False
           (initial_run (ex_disk []) []) (ex_row text_scan)))) ''access/large/scan.jpg'' =
       Some (Picture (ex_scan\<lparr>pic_mode := ''RGB''\<rparr>))
   \<and> pic_turned (ex_scan\<lparr>pic_mode := ''RGB''\<rparr>) = 0"
    by code_simp
  ultimately show ?thesis
    by simp
qed

text \<open>
  Claim C7, amended. For a decoded image that has the attribute \<^verbatim>\<open>_getexif\<close> and an
  EXIF dictionary, the generator turns the image once before the loop over the sizes: by
  180 degrees for orientation 3, by 270 for 6, by 90 for 8, and not at all for any other
  or a missing value. An image without the attribute is not turned, whatever its tags
  say, and neither is one whose \<^verbatim>\<open>getexif()\<close> is None or one for which the table of
  tags has no Orientation. The loop over the sizes works on that image and does not
  rotate: it is the same whatever \<^verbatim>\<open>rotate\<close> would do.
\<close>

theorem rotation_once_before_sizes:
  "(hasattr_getexif L img \<and> getexif L img = Some exif
      \<and> orientation_key (ExifTags_TAGS L) = Some k \<longrightarrow>
        fix_rotation L img =
          (if exif k = Some 3 then img_rotate L img 180
           else if exif k = Some 6 then img_rotate L img 270
           else if exif k = Some 8 then img_rotate L img 90
           else img))
   \<and> (\<not> hasattr_getexif L img \<longrightarrow> fix_rotation L img = img)
   \<and> (getexif L img = None \<longrightarrow> fix_rotation L img = img)
   \<and> (orientation_key (ExifTags_TAGS L) = None \<longrightarrow> fix_rotation L img = img)
   \<and> (Image_open L fs img_in = Inr img0 \<and> img_load L img0 = Inr img \<longrightarrow>
        generate_jpgs L C fs img_in quality sizes watermark overwrite =
          jpg_sizes L C img_in quality watermark overwrite (fix_rotation L img) sizes
            resp_empty fs)
   \<and> jpg_sizes (L\<lparr>img_rotate := turn\<rparr>) C img_in quality watermark overwrite
        (fix_rotation L img) sizes resp_empty fs =
      jpg_sizes L C img_in quality watermark overwrite (fix_rotation L img) sizes
        resp_empty fs"
proof -
  have table: "fix_rotation L img =
          (if exif k = Some 3 then img_rotate L img 180
           else if exif k = Some 6 then img_rotate L img 270
           else if exif k = Some 8 then img_rotate L img 90
           else img)"
    if "hasattr_getexif L img" "getexif L img = Some exif"
       "orientation_key (ExifTags_TAGS L) = Some k"
    using that by (simp add: fix_rotation_def)
  have no_attr: "fix_rotation L img = img" if "\<not> hasattr_getexif L img"
    using that by (simp add: fix_rotation_def)
  have no_exif: "fix_rotation L img = img" if "getexif L img = None"
    using that by (simp add: fix_rotation_def)
  have no_key: "fix_rotation L img = img" if "orientation_key (ExifTags_TAGS L) = None"
    using that by (simp add: fix_rotation_def split: option.splits)
  have before: "generate_jpgs L C fs img_in quality sizes watermark overwrite =
          jpg_sizes L C img_in quality watermark overwrite (fix_rotation L img) sizes
            resp_empty fs"
    if "Image_open L fs img_in = Inr img0" "img_load L img0 = Inr img"
    using that by (simp add: generate_jpgs_def)
  show ?thesis
    using table no_attr no_exif no_key before
    by (simp add: jpg_sizes_rotate)
qed

text \<open>
  On the example: the photo is a JPEG with orientation 6; it is turned by 270 degrees
  once, and the loop over the three sizes runs on the turned image. The scan has no
  \<^verbatim>\<open>_getexif\<close> and is not turned.
\<close>

theorem rotation_once_before_sizes_witness:
  "hasattr_getexif ex_lib ex_photo
   \<and> orientation_key (ExifTags_TAGS ex_lib) = Some 274
   \<and> map_of (pic_exif ex_photo) 274 = Some 6
   \<and> fix_rotation ex_lib ex_photo = ex_photo\<lparr>pic_turned := 270\<rparr>
   \<and> generate_jpgs ex_lib ex_settings (ex_disk []) ''master/photo.jpg'' 80 [1920, 640, 150]
        False False =
       jpg_sizes ex_lib ex_settings ''master/photo.jpg'' 80 False False
         (ex_photo\<lparr>pic_turned := 270\<rparr>) [1920, 640, 150] resp_empty (ex_disk [])
   \<and> \<not> hasattr_getexif ex_lib ex_scan
   \<and> fix_rotation ex_lib ex_scan = ex_scan"
proof -
  have attr: "hasattr_getexif ex_lib ex_photo"
    by code_simp
  have tags: "getexif ex_lib ex_photo = Some (map_of (pic_exif ex_photo))"
    by (simp add: ex_lib_def)
  have key: "orientation_key (ExifTags_TAGS ex_lib) = Some 274"
    by code_simp
  have six: "map_of (pic_exif ex_photo) 274 = Some 6"
    by code_simp
  have turned: "img_rotate ex_lib ex_photo 270 = ex_photo\<lparr>pic_turned := 270\<rparr>"
    by code_simp
  have opened: "Image_open ex_lib (ex_disk []) ''master/photo.jpg'' = Inr ex_photo"
    by code_simp
  have loaded: "img_load ex_lib ex_photo = Inr ex_photo"
    by code_simp
  have plain: "\<not> hasattr_getexif ex_lib ex_scan"
    by code_simp
  note r = rotation_once_before_sizes [where L = ex_lib and img = ex_photo
      and exif = "map_of (pic_exif ex_photo)" and k = 274 and fs = "ex_disk []"
      and img_in = "''master/photo.jpg''" and ?img0.0 = ex_photo and C = ex_settings
      and quality = 80 and sizes = "[1920, 640, 150]" and watermark = False
      and overwrite = False]
  note q = rotation_once_before_sizes [where L = ex_lib and img = ex_scan]
  from r attr tags key have rot: "fix_rotation ex_lib ex_photo = ex_photo\<lparr>pic_turned := 270\<rparr>"
    using six turned by simp
  from r opened loaded have "generate_jpgs ex_lib ex_settings (ex_disk []) ''master/photo.jpg''
        80 [1920, 640, 150] False False =
       jpg_sizes ex_lib ex_settings ''master/photo.jpg'' 80 False False
         (fix_rotation ex_lib ex_photo) [1920, 640, 150] resp_empty (ex_disk [])"
    by blast
  moreover from q plain have "fix_rotation ex_lib ex_scan = ex_scan"
    by blast
  ultimately show ?thesis
    using attr key six rot plain by simp
qed

subsection \<open>Existing destinations\<close>

text \<open>
  Claim C8. With \<^verbatim>\<open>overwrite=False\<close>, a size whose destination exists sets the error
  of the response and is passed over: the file system and the paths of the response go
  unchanged into the rest of the loop, which runs on the remaining sizes. The error stays
  in the response to the end of the loop. The pipeline counts a record whose response has
  an error as failed and appends nothing for it, whatever paths the response also holds.
\<close>

theorem existing_destination:
  "(path_exists L fs (out_file L C img_in sz) \<longrightarrow>
      jpg_sizes L C img_in quality watermark False img (sz # sizes) resp fs =
        jpg_sizes L C img_in quality watermark False img sizes
          (resp\<lparr>resp_error := Some (FileAlreadyExists (out_file L C img_in sz))\<rparr>) fs)
   \<and> (jpg_sizes L C img_in quality watermark False img sizes resp fs = (x, resp', fs')
        \<and> resp_error resp \<noteq> None \<longrightarrow> resp_error resp' \<noteq> None)
   \<and> (convert_file L C watermark s file = Generated s1 filename filepath rtype convert_resp
        \<and> resp_error convert_resp = Some err \<longrightarrow>
        process_file L C watermark upload overwrite s file =
          (None, say (ConvertFailed err)
                   (s\<lparr>local_fs := local_fs s1, failed := failed s + 1\<rparr>))
        \<and> outputs (snd (process_file L C watermark upload overwrite s file)) = outputs s)"
proof (intro conjI impI)
  assume "path_exists L fs (out_file L C img_in sz)"
  then show "jpg_sizes L C img_in quality watermark False img (sz # sizes) resp fs =
        jpg_sizes L C img_in quality watermark False img sizes
          (resp\<lparr>resp_error := Some (FileAlreadyExists (out_file L C img_in sz))\<rparr>) fs"
    by simp
next
  assume "jpg_sizes L C img_in quality watermark False img sizes resp fs = (x, resp', fs')
        \<and> resp_error resp \<noteq> None"
  then show "resp_error resp' \<noteq> None"
    using jpg_sizes_error_kept [of L C img_in quality watermark False img sizes resp fs x resp' fs']
    by simp
next
  assume a: "convert_file L C watermark s file = Generated s1 filename filepath rtype convert_resp
        \<and> resp_error convert_resp = Some err"
  then have gen: "convert_file L C watermark s file =
      Generated s1 filename filepath rtype convert_resp"
    by simp
  from convert_file_Generated [OF gen] have s1: "s1 = s\<lparr>local_fs := local_fs s1\<rparr>"
    by simp
  have f: "failed s1 = failed s"
    by (subst s1) simp
  have "s1\<lparr>failed := failed s1 + 1\<rparr> = s\<lparr>local_fs := local_fs s1, failed := failed s + 1\<rparr>"
    using arg_cong [where f = "\<lambda>r. r\<lparr>failed := failed s + 1\<rparr>", OF s1] f by simp
  with a show p: "process_file L C watermark upload overwrite s file =
          (None, say (ConvertFailed err)
                   (s\<lparr>local_fs := local_fs s1, failed := failed s + 1\<rparr>))"
    by (simp add: process_file_def store_result_error)
  show "outputs (snd (process_file L C watermark upload overwrite s file)) = outputs s"
    by (simp add: p say_def)
qed

text \<open>
  On the example: the medium file of the photo exists already. The large and the small
  file are written, the existing file is left as it is, and the record fails.
\<close>

theorem existing_destination_witness:
  "path_exists ex_lib ((''access/medium/photo.jpg'', Scrap) # ex_disk [])
     (out_file ex_lib ex_settings ''master/photo.jpg'' 640)
   \<and> jpg_sizes ex_lib ex_settings ''master/photo.jpg'' 80 False False ex_photo [640, 150]
       resp_empty ((''access/medium/photo.jpg'', Scrap) # ex_disk []) =
      jpg_sizes ex_lib ex_settings ''master/photo.jpg'' 80 False False ex_photo [150]
       (resp_empty\<lparr>resp_error := Some (FileAlreadyExists ''access/medium/photo.jpg'')\<rparr>)
       ((''access/medium/photo.jpg'', Scrap) # ex_disk [])
   \<and> fst (process_file ex_lib ex_settings False False False
        (initial_run ((''access/medium/photo.jpg'', Scrap) # ex_disk []) [])
        (ex_row text_photo)) = None
   \<and> failed (snd (process_file ex_lib ex_settings False False False
        (initial_run ((''access/medium/photo.jpg'', Scrap) # ex_disk []) [])
        (ex_row text_photo))) = 1
   \<and> outputs (snd (process_file ex_lib ex_settings False False False
        (initial_run ((''access/medium/photo.jpg'', Scrap) # ex_disk []) [])
        (ex_row text_photo))) = []
   \<and> take 3 (map fst (local_fs (snd (process_file ex_lib ex_settings False False False
        (initial_run ((''access/medium/photo.jpg'', Scrap) # ex_disk []) [])
        (ex_row text_photo))))) =
      [''access/small/photo.jpg'', ''access/large/photo.jpg'', ''access/medium/photo.jpg'']
   \<and> map_of (local_fs (snd (process_file ex_lib ex_settings False False False
        (initial_run ((''access/medium/photo.jpg'', Scrap) # ex_disk []) [])
        (ex_row text_photo)))) ''access/medium/photo.jpg'' = Some Scrap"
proof -
  let ?disk = "(''access/medium/photo.jpg'', Scrap) # ex_disk []"
  let ?s = "initial_run ?disk []"
  let ?g = "convert_file ex_lib ex_settings False ?s (ex_row text_photo)"
  let ?p = "process_file ex_lib ex_settings False False False ?s (ex_row text_photo)"
  note skip = existing_destination [THEN conjunct1, rule_format]
  note fail = existing_destination [THEN conjunct2, THEN conjunct2, rule_format]
  have there: "path_exists ex_lib ?disk (out_file ex_lib ex_settings ''master/photo.jpg'' 640)"
    by code_simp
  have out: "out_file ex_lib ex_settings ''master/photo.jpg'' 640 = ''access/medium/photo.jpg''"
    by code_simp
  have gen: "?g = Generated (gen_run ?g) (gen_filename ?g) (gen_filepath ?g) (gen_rtype ?g)
      (gen_resp ?g)"
    by code_simp
  have err: "resp_error (gen_resp ?g) = Some (FileAlreadyExists ''access/small/photo.jpg'')
      \<or> resp_error (gen_resp ?g) = Some (FileAlreadyExists ''access/medium/photo.jpg'')"
    by code_simp
  have written: "take 3 (map fst (local_fs (snd ?p))) =
      [''access/small/photo.jpg'', ''access/large/photo.jpg'', ''access/medium/photo.jpg'']"
    by code_simp
  have kept: "map_of (local_fs (snd ?p)) ''access/medium/photo.jpg'' = Some Scrap"
    by code_simp
  from err obtain e where e: "resp_error (gen_resp ?g) = Some e"
    by blast
  from fail [OF conjI [OF gen e], of False False]
  have "fst ?p = None" "failed (snd ?p) = 1" "outputs (snd ?p) = []"
    by (simp_all add: say_def initial_run_def)
  with skip [OF there, of 80 False ex_photo "[150]" resp_empty] out written kept there
  show ?thesis
    by simp
qed

subsection \<open>The overwrite argument\<close>

lemma same_local_refl [simp]: "same_local s s"
  by (simp add: same_local_def)

lemma same_local_fs:
  "same_local s t \<Longrightarrow> same_local (s\<lparr>local_fs := fs\<rparr>) (t\<lparr>local_fs := fs\<rparr>)"
  by (simp add: same_local_def)

lemma call_generate_jpgs_same:
  assumes "same_local s t"
  shows "same_generated (call_generate_jpgs L C watermark s filename filepath filesizes rtype)
           (call_generate_jpgs L C watermark t filename filepath filesizes rtype)"
proof -
  from assms have fs: "local_fs t = local_fs s"
    by (simp add: same_local_def)
  obtain x resp fs' where
    g: "generate_jpgs L C (local_fs s) filepath 80 filesizes watermark False = (x, resp, fs')"
    by (cases "generate_jpgs L C (local_fs s) filepath 80 filesizes watermark False")
  show ?thesis
    using assms by (cases x) (simp_all add: call_generate_jpgs_def fs g same_local_def)
qed

lemma determine_fileformat_same:
  assumes "same_local s t"
  shows "same_generated (determine_fileformat L C watermark s filename filepath)
           (determine_fileformat L C watermark t filename filepath)"
proof -
  from assms have fs: "local_fs t = local_fs s"
    by (simp add: same_local_def)
  obtain r fs' where
    c: "convert_pdf_cover_to_image L (local_fs s) filepath ''./images/temp'' = (r, fs')"
    by (cases "convert_pdf_cover_to_image L (local_fs s) filepath ''./images/temp''")
  have skip: "same_local (say m (s\<lparr>skipped := skipped s + 1\<rparr>)) (say m (t\<lparr>skipped := skipped t + 1\<rparr>))"
    for m
    using assms by (simp add: same_local_def say_def)
  have raised: "same_local (s\<lparr>local_fs := fs'\<rparr>) (t\<lparr>local_fs := fs'\<rparr>)"
    by (rule same_local_fs [OF assms])
  show ?thesis
  proof (cases "path_suffix L filepath \<in> set (SAM_IMAGE_FORMATS C)")
    case True
    with call_generate_jpgs_same [OF assms, of L C watermark filename filepath] show ?thesis
      by (simp add: determine_fileformat_def)
  next
    case False
    show ?thesis
    proof (cases "path_suffix L filepath = ''.pdf''")
      case no_pdf: False
      with False skip show ?thesis
        by (simp add: determine_fileformat_def)
    next
      case True
      show ?thesis
      proof (cases r)
        case (Inl e)
        with False True c fs raised show ?thesis
          by (simp add: determine_fileformat_def)
      next
        case (Inr cover)
        with False True c fs call_generate_jpgs_same [OF raised, of L C watermark filename cover]
        show ?thesis
          by (simp add: determine_fileformat_def)
      qed
    qed
  qed
qed

lemma check_filepath_same:
  assumes "same_local s t"
  shows "same_generated (check_filepath L C watermark s filename)
           (check_filepath L C watermark t filename)"
proof (cases filename)
  case (JString name)
  from assms have fs: "local_fs t = local_fs s"
    by (simp add: same_local_def)
  have fail: "same_local (say m (s\<lparr>failed := failed s + 1\<rparr>)) (say m (t\<lparr>failed := failed t + 1\<rparr>))"
    for m
    using assms by (simp add: same_local_def say_def)
  from JString fail determine_fileformat_same [OF assms, of L C watermark filename]
  show ?thesis
    by (simp add: check_filepath_def fs Let_def)
qed (use assms in \<open>simp_all add: check_filepath_def\<close>)

lemma convert_file_same:
  assumes "same_local s t"
  shows "same_generated (convert_file L C watermark s file) (convert_file L C watermark t file)"
proof (cases "load_sam_data L file")
  case (Inl e)
  with assms show ?thesis
    by (simp add: convert_file_def)
next
  case (Inr d)
  obtain legal_status constractual_status filename where
    d: "d = (legal_status, constractual_status, filename)"
    by (cases d)
  have skip: "same_local (say m (s\<lparr>skipped := skipped s + 1\<rparr>)) (say m (t\<lparr>skipped := skipped t + 1\<rparr>))"
    for m
    using assms by (simp add: same_local_def say_def)
  show ?thesis
  proof (cases "check_rights L legal_status constractual_status")
    case (Inl e)
    with Inr d assms show ?thesis
      by (simp add: convert_file_def)
  next
    case rights: (Inr r)
    with Inr d skip check_filepath_same [OF assms, of L C watermark filename] show ?thesis
      by (cases r) (simp_all add: convert_file_def)
  qed
qed

lemma store_result_same:
  assumes "same_local s t"
  shows "fst (store_result L C upload o1 s filename filepath rtype resp) =
           fst (store_result L C upload o2 t filename filepath rtype resp)
       \<and> same_local (snd (store_result L C upload o1 s filename filepath rtype resp))
           (snd (store_result L C upload o2 t filename filepath rtype resp))"
proof (cases "resp_error resp")
  case (Some err)
  with assms show ?thesis
    by (simp add: store_result_error same_local_def say_def)
next
  case None
  show ?thesis
  proof (cases upload)
    case False
    with None assms show ?thesis
      by (simp add: store_result_def same_local_def say_def Let_def)
  next
    case True
    show ?thesis
    proof (cases "upload_paths C resp")
      case (Inl e)
      with None True assms show ?thesis
        by (simp add: store_result_def same_local_def say_def Let_def)
    next
      case (Inr filepaths)
      obtain res1 r1 where u1: "upload_files L (local_fs s) (remote s) filepaths o1 = (res1, r1)"
        by (cases "upload_files L (local_fs s) (remote s) filepaths o1")
      obtain res2 r2 where u2: "upload_files L (local_fs t) (remote t) filepaths o2 = (res2, r2)"
        by (cases "upload_files L (local_fs t) (remote t) filepaths o2")
      from None True Inr u1 u2 assms show ?thesis
        by (cases res1; cases res2)
          (simp_all add: store_result_def same_local_def say_def Let_def)
    qed
  qed
qed

lemma conclude_same:
  assumes "same_generated g g'"
  shows "fst (conclude L C upload o1 g) = fst (conclude L C upload o2 g')
       \<and> same_local (snd (conclude L C upload o1 g)) (snd (conclude L C upload o2 g'))"
proof (cases g)
  case (Raised e s)
  with assms show ?thesis
    by (cases g') simp_all
next
  case (Finished s)
  with assms show ?thesis
    by (cases g') simp_all
next
  case (Generated s filename filepath rtype resp)
  with assms obtain t where g': "g' = Generated t filename filepath rtype resp"
    and st: "same_local s t"
    by (cases g') simp_all
  from store_result_same [OF st, of L C upload o1 filename filepath rtype resp o2] Generated g'
  show ?thesis
    by simp
qed

lemma process_file_same:
  assumes "same_local s t"
  shows "fst (process_file L C watermark upload o1 s file) =
           fst (process_file L C watermark upload o2 t file)
       \<and> same_local (snd (process_file L C watermark upload o1 s file))
           (snd (process_file L C watermark upload o2 t file))"
  unfolding process_file_def
  by (rule conclude_same [OF convert_file_same [OF assms]])

lemma files_loop_same:
  "same_local s t \<Longrightarrow>
   fst (files_loop L C watermark upload o1 s rows) =
     fst (files_loop L C watermark upload o2 t rows)
   \<and> same_local (snd (files_loop L C watermark upload o1 s rows))
       (snd (files_loop L C watermark upload o2 t rows))"
proof (induction rows arbitrary: s t)
  case Nil
  then show ?case by simp
next
  case (Cons a rows)
  obtain x s' where p1: "process_file L C watermark upload o1 s a = (x, s')"
    by (cases "process_file L C watermark upload o1 s a")
  obtain y t' where p2: "process_file L C watermark upload o2 t a = (y, t')"
    by (cases "process_file L C watermark upload o2 t a")
  from process_file_same [OF Cons.prems, of L C watermark upload o1 a o2] p1 p2
  have xy: "y = x" and st: "same_local s' t'"
    by simp_all
  show ?case
  proof (cases x)
    case None
    with p1 p2 xy Cons.IH [OF st] show ?thesis
      by simp
  next
    case (Some e)
    with p1 p2 xy st show ?thesis
      by simp
  qed
qed

lemma store_result_no_upload:
  "store_result L C False o1 s filename filepath rtype resp =
   store_result L C False o2 s filename filepath rtype resp"
  by (simp add: store_result_def Let_def split: option.splits)

lemma process_file_no_upload:
  "process_file L C watermark False o1 s file = process_file L C watermark False o2 s file"
  by (cases "convert_file L C watermark s file")
    (simp_all add: process_file_def store_result_no_upload [of L C o1 _ _ _ _ _ o2])

lemma files_loop_no_upload:
  "files_loop L C watermark False o1 s rows = files_loop L C watermark False o2 s rows"
proof (induction rows arbitrary: s)
  case Nil
  show ?case by simp
next
  case (Cons a rows)
  show ?case
    by (simp add: process_file_no_upload [of L C watermark o1 s a o2] Cons.IH
          split: prod.splits option.splits)
qed

text \<open>
  Claim C10. The pipeline calls the generator with \<^verbatim>\<open>overwrite=False\<close> whatever its
  own \<open>overwrite\<close> is. So two runs of the loop that differ in \<open>overwrite\<close> only raise
  the same exception, if any, and agree on the files on the local disk, on
  \<open>converted\<close> and on \<open>skipped\<close>; they can differ only in what comes after the upload
  call. Without an upload the two runs of the whole function are equal.
\<close>

theorem overwrite_reaches_upload_only:
  "call_generate_jpgs L C watermark s filename filepath filesizes rtype =
     (case generate_jpgs L C (local_fs s) filepath 80 filesizes watermark False of
        (Some e, convert_resp, fs') \<Rightarrow> Raised e (s\<lparr>local_fs := fs'\<rparr>)
      | (None, convert_resp, fs') \<Rightarrow>
          Generated (s\<lparr>local_fs := fs'\<rparr>) filename filepath rtype convert_resp)
   \<and> fst (files_loop L C watermark upload True s rows) =
       fst (files_loop L C watermark upload False s rows)
   \<and> same_local (snd (files_loop L C watermark upload True s rows))
       (snd (files_loop L C watermark upload False s rows))
   \<and> (\<not> upload \<longrightarrow>
        generate_sam_access_files L C fs0 r0 csv_in csv_out watermark upload True =
        generate_sam_access_files L C fs0 r0 csv_in csv_out watermark upload False)"
proof (intro conjI impI)
  show "call_generate_jpgs L C watermark s filename filepath filesizes rtype =
     (case generate_jpgs L C (local_fs s) filepath 80 filesizes watermark False of
        (Some e, convert_resp, fs') \<Rightarrow> Raised e (s\<lparr>local_fs := fs'\<rparr>)
      | (None, convert_resp, fs') \<Rightarrow>
          Generated (s\<lparr>local_fs := fs'\<rparr>) filename filepath rtype convert_resp)"
    by (simp add: call_generate_jpgs_def)
  from files_loop_same [OF same_local_refl, of L C watermark upload True s rows False]
  show "fst (files_loop L C watermark upload True s rows) =
       fst (files_loop L C watermark upload False s rows)"
    and "same_local (snd (files_loop L C watermark upload True s rows))
       (snd (files_loop L C watermark upload False s rows))"
    by simp_all
  assume "\<not> upload"
  then show "generate_sam_access_files L C fs0 r0 csv_in csv_out watermark upload True =
        generate_sam_access_files L C fs0 r0 csv_in csv_out watermark upload False"
    by (simp add: generate_sam_access_files_def
          files_loop_no_upload [of L C watermark True _ _ False] cong: sum.case_cong)
qed

text \<open>
  On the example, with an upload: the remote store has taken the small file of the photo
  before, so the upload succeeds with \<open>overwrite\<close> and fails without it, while the
  disk, \<open>converted\<close> and \<open>skipped\<close> are the same. Without an upload the two runs are
  equal.
\<close>

theorem overwrite_reaches_upload_only_witness:
  "same_local
     (snd (files_loop ex_lib ex_settings False True True
        (initial_run (ex_disk []) [''access/small/photo.jpg''])
        [ex_row text_photo, ex_row text_secret]))
     (snd (files_loop ex_lib ex_settings False True False
        (initial_run (ex_disk []) [''access/small/photo.jpg''])
        [ex_row text_photo, ex_row text_secret]))
   \<and> uploaded (snd (files_loop ex_lib ex_settings False True True
        (initial_run (ex_disk []) [''access/small/photo.jpg''])
        [ex_row text_photo, ex_row text_secret])) = 1
   \<and> uploaded (snd (files_loop ex_lib ex_settings False True False
        (initial_run (ex_disk []) [''access/small/photo.jpg''])
        [ex_row text_photo, ex_row text_secret])) = 0
   \<and> generate_sam_access_files ex_lib ex_settings (ex_disk [text_photo, text_secret]) []
        ''in.csv'' ''out.csv'' False False True =
       generate_sam_access_files ex_lib ex_settings (ex_disk [text_photo, text_secret]) []
        ''in.csv'' ''out.csv'' False False False"
proof -
  have with_overwrite: "uploaded (snd (files_loop ex_lib ex_settings False True True
        (initial_run (ex_disk []) [''access/small/photo.jpg''])
        [ex_row text_photo, ex_row text_secret])) = 1"
    by code_simp
  have without: "uploaded (snd (files_loop ex_lib ex_settings False True False
        (initial_run (ex_disk []) [''access/small/photo.jpg''])
        [ex_row text_photo, ex_row text_secret])) = 0"
    by code_simp
  have no_upload: "\<not> False"
    by simp
  note local = overwrite_reaches_upload_only
    [where L = ex_lib and C = ex_settings and watermark = False and upload = True
       and s = "initial_run (ex_disk []) [''access/small/photo.jpg'']"
       and rows = "[ex_row text_photo, ex_row text_secret]",
     THEN conjunct2, THEN conjunct2, THEN conjunct1]
  note equal = overwrite_reaches_upload_only
    [where L = ex_lib and C = ex_settings and watermark = False and upload = False
       and ?fs0.0 = "ex_disk [text_photo, text_secret]" and ?r0.0 = "[]"
       and csv_in = "''in.csv''" and csv_out = "''out.csv''",
     THEN conjunct2, THEN conjunct2, THEN conjunct2, rule_format, OF no_upload]
  from local equal with_overwrite without show ?thesis
    by simp
qed

subsection \<open>The size of a copy\<close>

lemma div_bounds:
  fixes a b :: int
  assumes "0 < b"
  shows "(a div b) * b \<le> a" "a < (a div b) * b + b"
        "a \<le> ceil_div a b * b" "ceil_div a b * b < a + b"
proof -
  have m: "a = (a div b) * b + a mod b" by simp
  have r: "0 \<le> a mod b" "a mod b < b" using assms by simp_all
  show "(a div b) * b \<le> a" using m r by linarith
  show "a < (a div b) * b + b" using m r by linarith
  have m': "- a = ((- a) div b) * b + (- a) mod b" by simp
  have r': "0 \<le> (- a) mod b" "(- a) mod b < b" using assms by simp_all
  have e: "ceil_div a b * b = - (((- a) div b) * b)" by (simp add: ceil_div_def)
  show "a \<le> ceil_div a b * b" using m' r' e by linarith
  show "ceil_div a b * b < a + b" using m' r' e by linarith
qed

lemma rounded_bounds:
  fixes a b n :: int
  assumes b: "0 < b" and n: "n = a div b \<or> n = ceil_div a b"
  shows "\<bar>n * b - a\<bar> < b"
    and "0 \<le> a \<Longrightarrow> 0 \<le> n"
    and "a \<le> c * b \<Longrightarrow> n \<le> c"
proof -
  note d = div_bounds [OF b, of a]
  have lo: "a - b < n * b" using n d by auto
  have hi: "n * b < a + b" using n d by auto
  show "\<bar>n * b - a\<bar> < b" using lo hi by linarith
  show "0 \<le> n" if "0 \<le> a"
  proof -
    have "n * b \<le> - b" if "n \<le> - 1"
      using mult_right_mono [OF that, of b] b by simp
    then show ?thesis using lo \<open>0 \<le> a\<close> by fastforce
  qed
  show "n \<le> c" if "a \<le> c * b"
  proof -
    have "n * b < (c + 1) * b" using hi that by (simp add: algebra_simps)
    then have "n < c + 1" using b by (simp add: mult_less_cancel_right)
    then show ?thesis by simp
  qed
qed

lemma clamped_bounds:
  fixes a b n c :: int
  assumes b: "0 < b" and n: "n = a div b \<or> n = ceil_div a b"
      and a: "1 \<le> a" and c: "a \<le> c * b" "1 \<le> c"
  shows "1 \<le> max n 1" "max n 1 \<le> c" "\<bar>max n 1 * b - a\<bar> < b"
proof -
  note r = rounded_bounds [OF b n]
  have n0: "0 \<le> n" using r(2) a by simp
  show "1 \<le> max n 1" by simp
  show "max n 1 \<le> c" using r(3) [OF c(1)] c(2) by simp
  show "\<bar>max n 1 * b - a\<bar> < b"
  proof (cases "1 \<le> n")
    case True
    then show ?thesis using r(1) by (simp add: max_def)
  next
    case False
    then have z: "n = 0" using n0 by simp
    have "a < b" using r(1) z by simp
    then show ?thesis using False a by (simp add: max_def)
  qed
qed

lemma thumbnail_size_square:
  assumes sz: "1 \<le> sz" and w: "1 \<le> w" and h: "1 \<le> h"
  shows "1 \<le> fst (thumbnail_size (w, h) (sz, sz))"
    and "1 \<le> snd (thumbnail_size (w, h) (sz, sz))"
    and "fst (thumbnail_size (w, h) (sz, sz)) \<le> sz"
    and "snd (thumbnail_size (w, h) (sz, sz)) \<le> sz"
    and "fst (thumbnail_size (w, h) (sz, sz)) \<le> w"
    and "snd (thumbnail_size (w, h) (sz, sz)) \<le> h"
    and "\<bar>fst (thumbnail_size (w, h) (sz, sz)) * h - snd (thumbnail_size (w, h) (sz, sz)) * w\<bar>
           < max w h"
proof -
  consider (fits) "w \<le> sz" "h \<le> sz"
    | (tall) "\<not> (w \<le> sz \<and> h \<le> sz)" "w \<le> h"
    | (wide) "\<not> (w \<le> sz \<and> h \<le> sz)" "h < w"
    by linarith
  then have "1 \<le> fst (thumbnail_size (w, h) (sz, sz))
      \<and> 1 \<le> snd (thumbnail_size (w, h) (sz, sz))
      \<and> fst (thumbnail_size (w, h) (sz, sz)) \<le> sz
      \<and> snd (thumbnail_size (w, h) (sz, sz)) \<le> sz
      \<and> fst (thumbnail_size (w, h) (sz, sz)) \<le> w
      \<and> snd (thumbnail_size (w, h) (sz, sz)) \<le> h
      \<and> \<bar>fst (thumbnail_size (w, h) (sz, sz)) * h - snd (thumbnail_size (w, h) (sz, sz)) * w\<bar>
           < max w h"
  proof cases
    case fits
    then show ?thesis using w h by (simp add: thumbnail_size_def)
  next
    case tall
    then have small: "sz < h" by linarith
    define n where "n = (if \<bar>w * sz - ((sz * w) div h) * h\<bar> \<le> \<bar>w * sz - ceil_div (sz * w) h * h\<bar>
                         then (sz * w) div h else ceil_div (sz * w) h)"
    have n: "n = (sz * w) div h \<or> n = ceil_div (sz * w) h" by (simp add: n_def)
    have c1: "sz * w \<le> sz * h" using tall(2) sz by (simp add: mult_left_mono)
    have nofit: "\<not> h \<le> sz" using small by simp
    have eq: "thumbnail_size (w, h) (sz, sz) = (max n 1, sz)"
      by (simp add: thumbnail_size_def Let_def n_def nofit c1)
    have b: "0 < h" using h by simp
    have a: "1 \<le> sz * w" using mult_mono [of 1 sz 1 w] sz w by simp
    have c2: "sz * w \<le> w * h" using small w by (simp add: mult.commute mult_left_mono)
    note k1 = clamped_bounds [OF b n a c1 sz]
    note k2 = clamped_bounds [OF b n a c2 w]
    show ?thesis using k1 k2 small tall(2) sz by (simp add: eq max_def)
  next
    case wide
    then have small: "sz < w" by linarith
    define n where "n = (if (sz * h) div w = 0 \<or>
                            \<bar>w * ((sz * h) div w) - sz * h\<bar> * ceil_div (sz * h) w
                              \<le> \<bar>w * ceil_div (sz * h) w - sz * h\<bar> * ((sz * h) div w)
                         then (sz * h) div w else ceil_div (sz * h) w)"
    have n: "n = (sz * h) div w \<or> n = ceil_div (sz * h) w" by (simp add: n_def)
    have c1: "sz * h \<le> sz * w" using wide(2) sz by (simp add: mult_left_mono)
    have c0: "\<not> sz * w \<le> sz * h" using wide(2) sz by (simp add: mult_le_cancel_left)
    have nofit: "\<not> w \<le> sz" using small by simp
    have eq: "thumbnail_size (w, h) (sz, sz) = (sz, max n 1)"
      by (simp add: thumbnail_size_def Let_def n_def nofit c0)
    have b: "0 < w" using w by simp
    have a: "1 \<le> sz * h" using mult_mono [of 1 sz 1 h] sz h by simp
    have c2: "sz * h \<le> h * w" using small h by (simp add: mult.commute mult_left_mono)
    note k1 = clamped_bounds [OF b n a c1 sz]
    note k2 = clamped_bounds [OF b n a c2 h]
    have "\<bar>sz * h - max n 1 * w\<bar> = \<bar>max n 1 * w - sz * h\<bar>" by simp
    then show ?thesis using k1 k2 small wide(2) sz by (simp add: eq max_def)
  qed
  then show "1 \<le> fst (thumbnail_size (w, h) (sz, sz))"
    and "1 \<le> snd (thumbnail_size (w, h) (sz, sz))"
    and "fst (thumbnail_size (w, h) (sz, sz)) \<le> sz"
    and "snd (thumbnail_size (w, h) (sz, sz)) \<le> sz"
    and "fst (thumbnail_size (w, h) (sz, sz)) \<le> w"
    and "snd (thumbnail_size (w, h) (sz, sz)) \<le> h"
    and "\<bar>fst (thumbnail_size (w, h) (sz, sz)) * h - snd (thumbnail_size (w, h) (sz, sz)) * w\<bar>
           < max w h"
    by simp_all
qed


lemma no_proportional_strip:
  fixes w' h' :: int
  assumes "1 \<le> h'" and "w' \<le> 150"
  shows "w' * 10 \<noteq> h' * 3000"
  using assms by linarith

text \<open>
  Claim C9, as stated, fails: whole pixels cannot keep every aspect ratio. The strip of
  3000 by 10 pixels, rendered at the small size 150, becomes 150 by 1: the half pixel
  that the proportion asks for is raised to 1, and the copy has the aspect ratio 150
  where the source has 300. (By \<open>no_proportional_strip\<close> no copy of at least one pixel
  whose width is at most 150 has the aspect ratio of this source.)
\<close>

theorem proportional_copy_counterexample:
  "img_size ex_lib ex_strip = (3000, 10)
   \<and> img_size ex_lib (sized_copy ex_lib ex_settings False ex_strip 150) = (150, 1)
   \<and> img_width ex_lib (sized_copy ex_lib ex_settings False ex_strip 150)
         * img_height ex_lib ex_strip
       \<noteq> img_height ex_lib (sized_copy ex_lib ex_settings False ex_strip 150)
         * img_width ex_lib ex_strip"
  by code_simp

text \<open>
  Claim C9, amended. Let \<^verbatim>\<open>thumbnail\<close> size a picture as \<open>thumbnail_size\<close> does, and
  let \<^verbatim>\<open>copy\<close>, \<^verbatim>\<open>add_watermark\<close> and \<^verbatim>\<open>convert\<close> keep the size. Then for every
  target size of at least 1 and every image of at least one pixel each way, the copy
  that is saved for that size has the size \<open>thumbnail_size\<close> gives for the square box of
  the target size: both sides are at least 1 and at most the target size, no side is
  longer than that of the image (no upscaling), an image that fits the box keeps its
  size, and the aspect ratio is kept up to the rounding of one side to whole pixels:
  the width of the copy times the height of the image differs from the height of the
  copy times the width of the image by less than the longer side of the image.
\<close>

theorem sized_copy_fits:
  assumes thumb: "\<And>p box. img_size L (img_thumbnail L p box) = thumbnail_size (img_size L p) box"
      and copy: "\<And>p. img_size L (img_copy L p) = img_size L p"
      and mark: "\<And>p. img_size L (add_watermark L p) = img_size L p"
      and conv: "\<And>p m. img_size L (img_convert L p m) = img_size L p"
      and sz: "1 \<le> sz"
      and w: "1 \<le> img_width L img"
      and h: "1 \<le> img_height L img"
  shows "img_size L (sized_copy L C watermark img sz) = thumbnail_size (img_size L img) (sz, sz)
       \<and> 1 \<le> img_width L (sized_copy L C watermark img sz)
       \<and> 1 \<le> img_height L (sized_copy L C watermark img sz)
       \<and> img_width L (sized_copy L C watermark img sz) \<le> sz
       \<and> img_height L (sized_copy L C watermark img sz) \<le> sz
       \<and> img_width L (sized_copy L C watermark img sz) \<le> img_width L img
       \<and> img_height L (sized_copy L C watermark img sz) \<le> img_height L img
       \<and> \<bar>img_width L (sized_copy L C watermark img sz) * img_height L img
            - img_height L (sized_copy L C watermark img sz) * img_width L img\<bar>
           < max (img_width L img) (img_height L img)
       \<and> (img_width L img \<le> sz \<and> img_height L img \<le> sz \<longrightarrow>
            img_size L (sized_copy L C watermark img sz) = img_size L img)"
proof -
  have size: "img_size L (sized_copy L C watermark img sz) =
                thumbnail_size (img_width L img, img_height L img) (sz, sz)"
    using thumb [of "img_copy L img" "(sz, sz)"] copy [of img]
    by (simp add: sized_copy_def Let_def mark conv) (simp add: img_size_def)
  have width: "img_width L (sized_copy L C watermark img sz) =
                 fst (thumbnail_size (img_width L img, img_height L img) (sz, sz))"
    using arg_cong [OF size, of fst] by (simp add: img_size_def)
  have height: "img_height L (sized_copy L C watermark img sz) =
                  snd (thumbnail_size (img_width L img, img_height L img) (sz, sz))"
    using arg_cong [OF size, of snd] by (simp add: img_size_def)
  have fits: "thumbnail_size (img_width L img, img_height L img) (sz, sz) =
                (img_width L img, img_height L img)"
    if "img_width L img \<le> sz" "img_height L img \<le> sz"
    using that by (simp add: thumbnail_size_def)
  note bounds = thumbnail_size_square [OF sz w h]
  show ?thesis
    unfolding width height
    using bounds size fits by (simp add: img_size_def)
qed

text \<open>
  On the photograph of 3000 by 2000 pixels, with the watermark: the medium copy is 640 by
  427, the small one 150 by 100, and at a target of 4000 the copy keeps 3000 by 2000.
\<close>

theorem sized_copy_fits_witness:
  "img_size ex_lib (sized_copy ex_lib ex_settings True ex_photo 640) = (640, 427)
   \<and> \<bar>(640::int) * 2000 - 427 * 3000\<bar> < 3000
   \<and> img_size ex_lib (sized_copy ex_lib ex_settings True ex_photo 150) = (150, 100)
   \<and> img_size ex_lib (sized_copy ex_lib ex_settings True ex_photo 4000) = (3000, 2000)"
proof -
  have thumb: "img_size ex_lib (img_thumbnail ex_lib p box) = thumbnail_size (img_size ex_lib p) box"
    for p box
    by (simp add: img_size_def ex_lib_def ex_thumbnail_def Let_def)
  have copy: "img_size ex_lib (img_copy ex_lib p) = img_size ex_lib p" for p
    by (simp add: img_size_def ex_lib_def)
  have mark: "img_size ex_lib (add_watermark ex_lib p) = img_size ex_lib p" for p
    by (simp add: img_size_def ex_lib_def)
  have conv: "img_size ex_lib (img_convert ex_lib p m) = img_size ex_lib p" for p m
    by (simp add: img_size_def ex_lib_def)
  have w: "1 \<le> img_width ex_lib ex_photo" by code_simp
  have h: "1 \<le> img_height ex_lib ex_photo" by code_simp
  have dims: "img_size ex_lib ex_photo = (3000, 2000)" by code_simp
  have t1: "thumbnail_size (3000, 2000) (640, 640) = (640, 427)" by code_simp
  have t2: "thumbnail_size (3000, 2000) (150, 150) = (150, 100)" by code_simp
  have t3: "thumbnail_size (3000, 2000) (4000, 4000) = (3000, 2000)" by code_simp
  show ?thesis
    using sized_copy_fits [of ex_lib 640 ex_photo ex_settings True, OF thumb copy mark conv _ w h]
          sized_copy_fits [of ex_lib 150 ex_photo ex_settings True, OF thumb copy mark conv _ w h]
          sized_copy_fits [of ex_lib 4000 ex_photo ex_settings True, OF thumb copy mark conv _ w h]
    by (simp add: dims t1 t2 t3)
qed

end
